theory Spec2Isabelle
  imports Main
begin

section \<open>ngfd settings loader (src/ngf/settings.c)\<close>

text \<open>
  A shallow embedding of the configuration loader of the non-graphic feedback daemon.
  C strings are modelled as \<open>string\<close> (a NUL-terminated string is the list of its
  characters before the NUL), a pointer that may be \<open>NULL\<close> as an \<open>option\<close>,
  a \<open>gint\<close> as the \<open>int\<close> it denotes (what \<open>atoi\<close> returns is brought into the
  32-bit range below; the key file's getters only give values in that range),
  \<open>gboolean\<close> as \<open>bool\<close>. Log output (\<open>N_DEBUG\<close>, \<open>N_WARNING\<close>) has no effect on control flow
  and is left out. Names keep the source's spelling without the leading underscore.
\<close>

subsection \<open>GLib and libc string functions\<close>

text \<open>
  \<open>g_strsplit (string, delimiter, max_tokens)\<close> for a one-character delimiter, as GLib
  implements it: a \<open>max_tokens\<close> below 1 stands for \<open>G_MAXINT\<close>; while
  \<open>--max_tokens\<close> is not zero and the delimiter occurs in the remainder, the text
  before it is a token; the remainder is the last token, unless the whole string is empty,
  which gives the empty vector.
\<close>

function g_strsplit_loop :: "char \<Rightarrow> int \<Rightarrow> string \<Rightarrow> string list" where
  "g_strsplit_loop d max_tokens remainder =
     (if max_tokens - 1 \<noteq> 0 \<and> d \<in> set remainder
      then takeWhile (\<lambda>c. c \<noteq> d) remainder
           # g_strsplit_loop d (max_tokens - 1) (tl (dropWhile (\<lambda>c. c \<noteq> d) remainder))
      else [remainder])"
  by pat_completeness auto
termination
proof (relation "measure (\<lambda>(d, n, s). length s)")
  show "wf (measure (\<lambda>(d, n, s). length s))" by simp
next
  fix d :: char and max_tokens :: int and remainder :: string
  assume "max_tokens - 1 \<noteq> 0 \<and> d \<in> set remainder"
  then have "dropWhile (\<lambda>c. c \<noteq> d) remainder \<noteq> []" by auto
  then have "length (tl (dropWhile (\<lambda>c. c \<noteq> d) remainder))
      < length (dropWhile (\<lambda>c. c \<noteq> d) remainder)"
    by (cases "dropWhile (\<lambda>c. c \<noteq> d) remainder") auto
  also have "\<dots> \<le> length remainder" by (rule length_dropWhile_le)
  finally show "((d, max_tokens - 1, tl (dropWhile (\<lambda>c. c \<noteq> d) remainder)),
      (d, max_tokens, remainder)) \<in> measure (\<lambda>(d, n, s). length s)" by simp
qed

declare g_strsplit_loop.simps [simp del]

definition G_MAXINT :: int where
  "G_MAXINT = 2147483647"

definition g_strsplit :: "string \<Rightarrow> char \<Rightarrow> int \<Rightarrow> string list" where
  "g_strsplit str d max_tokens =
     (if str = [] then []
      else g_strsplit_loop d (if max_tokens < 1 then G_MAXINT else max_tokens) str)"

definition g_str_has_prefix :: "string \<Rightarrow> string \<Rightarrow> bool" where
  "g_str_has_prefix str pre = (take (length pre) str = pre)"

text \<open>
  \<open>atoi\<close>, as the C library of the daemon's platform has it: \<open>(int) strtol (str, NULL, 10)\<close>
  with a 64-bit \<open>long\<close>. Leading white space is skipped, one optional sign is read,
  then decimal digits up to the first other character; a value outside the range of
  \<open>long\<close> becomes \<open>LONG_MAX\<close> or \<open>LONG_MIN\<close>; the conversion to \<open>int\<close> keeps
  the low 32 bits, read in two's complement.
\<close>

definition isspace :: "char \<Rightarrow> bool" where
  "isspace c = (c = CHR '' '' \<or> (9::nat) \<le> of_char c \<and> of_char c \<le> (13::nat))"

definition isdigit :: "char \<Rightarrow> bool" where
  "isdigit c = ((48::nat) \<le> of_char c \<and> of_char c \<le> (57::nat))"

fun atoi_digits :: "int \<Rightarrow> string \<Rightarrow> int" where
  "atoi_digits acc [] = acc"
| "atoi_digits acc (c # cs) =
     (if isdigit c then atoi_digits (10 * acc + (of_char c - 48)) cs else acc)"

definition LONG_MAX :: int where
  "LONG_MAX = 9223372036854775807"

definition LONG_MIN :: int where
  "LONG_MIN = - 9223372036854775808"

definition strtol :: "string \<Rightarrow> int" where
  "strtol str =
     (let v =
        (case dropWhile isspace str of
           [] \<Rightarrow> 0
         | c # cs \<Rightarrow>
             if c = CHR ''-'' then - atoi_digits 0 cs
             else if c = CHR ''+'' then atoi_digits 0 cs
             else atoi_digits 0 (c # cs))
      in if LONG_MAX < v then LONG_MAX else if v < LONG_MIN then LONG_MIN else v)"

definition long_to_int :: "int \<Rightarrow> int" where
  "long_to_int v = (v + 2147483648) mod 4294967296 - 2147483648"

definition atoi :: "string \<Rightarrow> int" where
  "atoi str = long_to_int (strtol str)"

subsection \<open>The identifier parser\<close>

text \<open>
  \<open>_strip_group_type\<close>: the pointer runs to the first space or to the end, steps over
  the space, and the result is \<open>NULL\<close> when nothing is left.
\<close>

definition strip_group_type :: "string \<Rightarrow> string option" where
  "strip_group_type grp =
     (let ptr = dropWhile (\<lambda>c. c \<noteq> CHR '' '') grp;
          ptr = (if ptr \<noteq> [] \<and> hd ptr = CHR '' '' then tl ptr else ptr)
      in if ptr = [] then None else Some ptr)"

definition parse_group_name :: "string \<Rightarrow> string option" where
  "parse_group_name grp =
     (case strip_group_type grp of
        None \<Rightarrow> None
      | Some name \<Rightarrow>
          (case g_strsplit name (CHR ''@'') 2 of
             [] \<Rightarrow> None
           | s0 # _ \<Rightarrow> Some s0))"

definition parse_group_parent :: "string option \<Rightarrow> string option" where
  "parse_group_parent grp =
     (case grp of
        None \<Rightarrow> None
      | Some g \<Rightarrow>
          (case strip_group_type g of
             None \<Rightarrow> None
           | Some name \<Rightarrow>
               (case g_strsplit name (CHR ''@'') 2 of
                  [] \<Rightarrow> None
                | [s0] \<Rightarrow> None
                | s0 # s1 # _ \<Rightarrow> Some s1)))"

subsection \<open>The key file and the schema table\<close>

text \<open>
  The key file is GLib's: the loader sees it only through its getters, which give a value
  or set an error. The model takes the getters' answers as given, so every theorem holds
  for any key file content.
\<close>

datatype GKeyFileError =
    G_KEY_FILE_ERROR_KEY_NOT_FOUND
  | G_KEY_FILE_ERROR_GROUP_NOT_FOUND
  | G_KEY_FILE_ERROR_INVALID_VALUE

datatype 'a key_result = Found 'a | Failed GKeyFileError

record GKeyFile =
  g_key_file_get_groups :: "string list"
  g_key_file_get_string :: "string \<Rightarrow> string \<Rightarrow> string key_result"
  g_key_file_get_integer :: "string \<Rightarrow> string \<Rightarrow> int key_result"
  g_key_file_get_boolean :: "string \<Rightarrow> string \<Rightarrow> bool key_result"

text \<open>What a getter returns to a caller that passes no error pointer.\<close>

definition returned_string :: "string key_result \<Rightarrow> string option" where
  "returned_string r = (case r of Found s \<Rightarrow> Some s | Failed _ \<Rightarrow> None)"

definition returned_integer :: "int key_result \<Rightarrow> int" where
  "returned_integer r = (case r of Found i \<Rightarrow> i | Failed _ \<Rightarrow> 0)"

definition GROUP_GENERAL :: string where "GROUP_GENERAL = ''general''"
definition GROUP_DEFINITION :: string where "GROUP_DEFINITION = ''definition''"
definition GROUP_EVENT :: string where "GROUP_EVENT = ''event''"

datatype KeyEntryType = KEY_ENTRY_TYPE_STRING | KEY_ENTRY_TYPE_INT | KEY_ENTRY_TYPE_BOOL

record KeyEntry =
  entry_type :: KeyEntryType
  entry_key :: string
  def_int :: int
  def_str :: "string option"

definition entry :: "KeyEntryType \<Rightarrow> string \<Rightarrow> int \<Rightarrow> string option \<Rightarrow> KeyEntry" where
  "entry t k i s = \<lparr>entry_type = t, entry_key = k, def_int = i, def_str = s\<rparr>"

text \<open>The table \<open>event_entries\<close>; \<open>FALSE\<close> is 0.\<close>

definition event_entries :: "KeyEntry list" where
  "event_entries =
    [entry KEY_ENTRY_TYPE_INT ''max_timeout'' 0 None,
     entry KEY_ENTRY_TYPE_BOOL ''allow_custom'' 0 None,
     entry KEY_ENTRY_TYPE_INT ''dummy'' 0 None,
     entry KEY_ENTRY_TYPE_BOOL ''audio_enabled'' 0 None,
     entry KEY_ENTRY_TYPE_BOOL ''audio_repeat'' 0 None,
     entry KEY_ENTRY_TYPE_INT ''audio_max_repeats'' 0 None,
     entry KEY_ENTRY_TYPE_STRING ''sound'' 0 None,
     entry KEY_ENTRY_TYPE_BOOL ''silent_enabled'' 0 None,
     entry KEY_ENTRY_TYPE_STRING ''volume'' 0 None,
     entry KEY_ENTRY_TYPE_STRING ''event_id'' 0 None,
     entry KEY_ENTRY_TYPE_BOOL ''audio_tonegen_enabled'' 0 None,
     entry KEY_ENTRY_TYPE_INT ''audio_tonegen_pattern'' (- 1) None,
     entry KEY_ENTRY_TYPE_BOOL ''vibration_enabled'' 0 None,
     entry KEY_ENTRY_TYPE_BOOL ''lookup_pattern'' 0 None,
     entry KEY_ENTRY_TYPE_STRING ''vibration'' 0 None,
     entry KEY_ENTRY_TYPE_BOOL ''led_enabled'' 0 None,
     entry KEY_ENTRY_TYPE_STRING ''led_pattern'' 0 None,
     entry KEY_ENTRY_TYPE_BOOL ''backlight_enabled'' 0 None]"

subsection \<open>Hash tables and property lists\<close>

text \<open>
  A \<open>GHashTable\<close> with string keys is an association list with one pair per key:
  inserting under a key that is present replaces its value, a new key is added at the
  end. GLib leaves the order of iteration open; the model iterates in list order.
  Looking a key up is \<open>map_of\<close> where the values are never \<open>NULL\<close> (the table
  of groups). The events table can hold a \<open>NULL\<close> property list, and a lookup there
  gives \<open>NULL\<close> for a missing key as for a stored \<open>NULL\<close>:
  \<open>g_hash_table_lookup\<close> below.
\<close>

fun g_hash_table_insert :: "('k \<times> 'v) list \<Rightarrow> 'k \<Rightarrow> 'v \<Rightarrow> ('k \<times> 'v) list" where
  "g_hash_table_insert [] k v = [(k, v)]"
| "g_hash_table_insert ((k', v') # t) k v =
     (if k' = k then (k, v) # t else (k', v') # g_hash_table_insert t k v)"

definition g_hash_table_lookup :: "('k \<times> 'v option) list \<Rightarrow> 'k \<Rightarrow> 'v option" where
  "g_hash_table_lookup t k = (case map_of t k of None \<Rightarrow> None | Some v \<Rightarrow> v)"

text \<open>
  Modelled from the spec: proplist.c is not among the sources. Section 3 of the spec has a
  property value as a tagged union of a string, an integer or a boolean, and a property
  set as an ordered mapping from field name to value. A string value holds a string: for a \<open>NULL\<close>
  pointer, which is what the schema's string defaults are, there is no value to hold, and
  setting it stores nothing. Setting a key replaces its value; merging overlays the source's pairs on the target (section 4.3, step 5); the
  getters give \<open>FALSE\<close>, 0 or \<open>NULL\<close> when the key is missing or of another kind. A
  \<open>NULL\<close> property list has no pairs: its copy is \<open>NULL\<close>, merging into it makes
  nothing (the spec's "no synthetic fallback value is injected").
\<close>

datatype NValue = NString string | NInt int | NBool bool

type_synonym NProplist = "(string \<times> NValue) list"

definition n_proplist_new :: NProplist where
  "n_proplist_new = []"

definition n_proplist_set_string :: "NProplist \<Rightarrow> string \<Rightarrow> string option \<Rightarrow> NProplist" where
  "n_proplist_set_string proplist k v =
     (case v of
        None \<Rightarrow> proplist
      | Some s \<Rightarrow> g_hash_table_insert proplist k (NString s))"

definition n_proplist_set_int :: "NProplist \<Rightarrow> string \<Rightarrow> int \<Rightarrow> NProplist" where
  "n_proplist_set_int proplist k v = g_hash_table_insert proplist k (NInt v)"

definition n_proplist_set_bool :: "NProplist \<Rightarrow> string \<Rightarrow> bool \<Rightarrow> NProplist" where
  "n_proplist_set_bool proplist k v = g_hash_table_insert proplist k (NBool v)"

definition n_proplist_copy :: "NProplist option \<Rightarrow> NProplist option" where
  "n_proplist_copy source = (case source of None \<Rightarrow> None | Some p \<Rightarrow> Some p)"

definition n_proplist_merge :: "NProplist option \<Rightarrow> NProplist \<Rightarrow> NProplist option" where
  "n_proplist_merge target source =
     (case target of
        None \<Rightarrow> None
      | Some t \<Rightarrow> Some (fold (\<lambda>(k, v) acc. g_hash_table_insert acc k v) source t))"

definition n_proplist_get_string :: "NProplist option \<Rightarrow> string \<Rightarrow> string option" where
  "n_proplist_get_string proplist k =
     (case proplist of
        None \<Rightarrow> None
      | Some p \<Rightarrow> (case map_of p k of Some (NString s) \<Rightarrow> Some s | _ \<Rightarrow> None))"

definition n_proplist_get_int :: "NProplist option \<Rightarrow> string \<Rightarrow> int" where
  "n_proplist_get_int proplist k =
     (case proplist of
        None \<Rightarrow> 0
      | Some p \<Rightarrow> (case map_of p k of Some (NInt i) \<Rightarrow> i | _ \<Rightarrow> 0))"

definition n_proplist_get_bool :: "NProplist option \<Rightarrow> string \<Rightarrow> bool" where
  "n_proplist_get_bool proplist k =
     (case proplist of
        None \<Rightarrow> False
      | Some p \<Rightarrow> (case map_of p k of Some (NBool b) \<Rightarrow> b | _ \<Rightarrow> False))"

subsection \<open>Reading one schema field\<close>

text \<open>
  \<open>_add_property_int\<close>, \<open>_add_property_bool\<close>, \<open>_add_property_string\<close>: when the
  getter sets an error, the default is taken, and the function returns without setting
  the key unless \<open>set_default\<close> holds.
\<close>

definition add_property_int ::
  "NProplist \<Rightarrow> GKeyFile \<Rightarrow> string \<Rightarrow> string \<Rightarrow> int \<Rightarrow> bool \<Rightarrow> NProplist" where
  "add_property_int proplist k grp ky def_value set_default =
     (case g_key_file_get_integer k grp ky of
        Found result \<Rightarrow> n_proplist_set_int proplist ky result
      | Failed err \<Rightarrow>
          if \<not> set_default then proplist
          else n_proplist_set_int proplist ky def_value)"

definition add_property_bool ::
  "NProplist \<Rightarrow> GKeyFile \<Rightarrow> string \<Rightarrow> string \<Rightarrow> bool \<Rightarrow> bool \<Rightarrow> NProplist" where
  "add_property_bool proplist k grp ky def_value set_default =
     (case g_key_file_get_boolean k grp ky of
        Found result \<Rightarrow> n_proplist_set_bool proplist ky result
      | Failed err \<Rightarrow>
          if \<not> set_default then proplist
          else n_proplist_set_bool proplist ky def_value)"

definition add_property_string ::
  "NProplist \<Rightarrow> GKeyFile \<Rightarrow> string \<Rightarrow> string \<Rightarrow> string option \<Rightarrow> bool \<Rightarrow> NProplist" where
  "add_property_string proplist k grp ky def_value set_default =
     (case g_key_file_get_string k grp ky of
        Found result \<Rightarrow> n_proplist_set_string proplist ky (Some result)
      | Failed err \<Rightarrow>
          if \<not> set_default then proplist
          else n_proplist_set_string proplist ky def_value)"

text \<open>The body of the loop over \<open>event_entries\<close> in \<open>_parse_single_event\<close>.\<close>

definition add_entry :: "GKeyFile \<Rightarrow> string \<Rightarrow> bool \<Rightarrow> KeyEntry \<Rightarrow> NProplist \<Rightarrow> NProplist" where
  "add_entry k grp is_base e proplist =
     (case entry_type e of
        KEY_ENTRY_TYPE_STRING \<Rightarrow>
          add_property_string proplist k grp (entry_key e) (def_str e) is_base
      | KEY_ENTRY_TYPE_INT \<Rightarrow>
          add_property_int proplist k grp (entry_key e) (def_int e) is_base
      | KEY_ENTRY_TYPE_BOOL \<Rightarrow>
          add_property_bool proplist k grp (entry_key e) (def_int e \<noteq> 0) is_base)"

definition event_proplist :: "GKeyFile \<Rightarrow> string \<Rightarrow> bool \<Rightarrow> NProplist" where
  "event_proplist k grp is_base = fold (add_entry k grp is_base) event_entries n_proplist_new"

subsection \<open>The property resolver\<close>

record SettingsData =
  groups :: "(string \<times> string) list"
  events :: "(string \<times> NProplist option) list"

fun event_is_done :: "string list \<Rightarrow> string option \<Rightarrow> bool" where
  "event_is_done [] name = False"
| "event_is_done (d # rest) name =
     (if name \<noteq> None \<and> Some d = name then True else event_is_done rest name)"

text \<open>
  The second half of \<open>_parse_single_event\<close>, after the parent has been resolved: the
  event's own property list is read with \<open>is_base = (parent == NULL)\<close>, merged onto a
  copy of what the events table holds for the parent, stored under the event's name, and
  the name is appended to the done list.
\<close>

definition store_event ::
  "GKeyFile \<Rightarrow> SettingsData \<times> string list \<Rightarrow> string \<Rightarrow> string \<Rightarrow> string option
    \<Rightarrow> SettingsData \<times> string list" where
  "store_event k st name grp parent =
     (let data = fst st;
          events_done = snd st;
          is_base = (parent = None);
          proplist = event_proplist k grp is_base;
          proplist =
            (case parent of
               None \<Rightarrow> Some proplist
             | Some p \<Rightarrow>
                 n_proplist_merge (n_proplist_copy (g_hash_table_lookup (events data) p)) proplist)
      in (data\<lparr>events := g_hash_table_insert (events data) name proplist\<rparr>,
          events_done @ [name]))"

text \<open>
  \<open>_parse_single_event\<close> calls itself on the parent with no guard against a cycle, so
  it need not return: the model is a partial function, \<open>None\<close> when the recursion never
  ends. The state is the settings data and the done list.
\<close>

partial_function (option) parse_single_event ::
  "GKeyFile \<Rightarrow> SettingsData \<times> string list \<Rightarrow> string option
    \<Rightarrow> (SettingsData \<times> string list) option" where
  "parse_single_event k st name =
     (case name of
        None \<Rightarrow> Some st
      | Some nm \<Rightarrow>
          if event_is_done (snd st) name then Some st
          else
            (case map_of (groups (fst st)) nm of
               None \<Rightarrow> Some st
             | Some grp \<Rightarrow>
                 (case parse_group_parent (Some grp) of
                    None \<Rightarrow> Some (store_event k st nm grp None)
                  | Some parent \<Rightarrow>
                      Option.bind (parse_single_event k st (Some parent))
                        (\<lambda>st'. Some (store_event k st' nm grp (Some parent))))))"

declare parse_single_event.simps [code]

subsection \<open>The registry and the world outside\<close>

text \<open>
  Modelled from the spec: event.h and context.h are not among the sources. The resource
  references are the tagged unions of the spec's section 3; a profile name is the pointer
  \<open>_parse_profile_key\<close> stores, which is \<open>NULL\<close> when the payload has no \<open>@\<close>.
  The constructors' arguments are, in order: profile and key; the file name; the level;
  the level and the three-element ramp (\<open>linear\<close> in the source); the internal pattern
  number.
\<close>

datatype SoundPath =
    SOUND_PATH_TYPE_PROFILE "string option" string
  | SOUND_PATH_TYPE_FILENAME string

datatype Volume =
    VOLUME_TYPE_PROFILE "string option" string
  | VOLUME_TYPE_FIXED int
  | VOLUME_TYPE_LINEAR int "int list"

datatype VibrationPattern =
    VIBRATION_PATTERN_TYPE_PROFILE "string option" string
  | VIBRATION_PATTERN_TYPE_FILENAME string
  | VIBRATION_PATTERN_TYPE_INTERNAL int

record Definition =
  long_event :: "string option"
  short_event :: "string option"
  meeting_event :: "string option"

record Event =
  audio_enabled :: bool
  vibration_enabled :: bool
  leds_enabled :: bool
  backlight_enabled :: bool
  allow_custom :: bool
  max_timeout :: int
  lookup_pattern :: bool
  silent_enabled :: bool
  event_id :: "string option"
  tone_generator_enabled :: bool
  tone_generator_pattern :: int
  repeat :: bool
  num_repeats :: int
  led_pattern :: "string option"
  sounds :: "SoundPath list"
  volume :: "Volume option"
  patterns :: "VibrationPattern list"

text \<open>
  The fields of \<open>Context\<close> that settings.c reads or writes, and the three pools of
  interned references behind \<open>context_add_sound_path\<close>, \<open>context_add_volume\<close> and
  \<open>context_add_pattern\<close>.
\<close>

record Context =
  required_plugins :: "string list"
  patterns_path :: "string option"
  sound_path :: "string option"
  audio_buffer_time :: int
  audio_latency_time :: int
  system_volume :: "int list"
  definitions :: "(string \<times> Definition) list"
  registry_events :: "(string \<times> Event) list"
  sound_path_pool :: "SoundPath list"
  volume_pool :: "Volume list"
  pattern_pool :: "VibrationPattern list"

text \<open>
  Modelled from the spec: context.c is not among the sources. Section 4.2: every
  successfully parsed reference is registered with the registry, which returns a shared
  handle; an interned reference behaves as the one handed in. Nothing is registered for
  \<open>NULL\<close> (a string with an unknown prefix), and \<open>NULL\<close> comes back.
\<close>

definition context_add_sound_path :: "Context \<Rightarrow> SoundPath option \<Rightarrow> Context \<times> SoundPath option" where
  "context_add_sound_path ctx sp =
     (case sp of
        None \<Rightarrow> (ctx, None)
      | Some p \<Rightarrow>
          (if p \<in> set (sound_path_pool ctx) then ctx
           else ctx\<lparr>sound_path_pool := sound_path_pool ctx @ [p]\<rparr>, Some p))"

definition context_add_volume :: "Context \<Rightarrow> Volume option \<Rightarrow> Context \<times> Volume option" where
  "context_add_volume ctx vol =
     (case vol of
        None \<Rightarrow> (ctx, None)
      | Some v \<Rightarrow>
          (if v \<in> set (volume_pool ctx) then ctx
           else ctx\<lparr>volume_pool := volume_pool ctx @ [v]\<rparr>, Some v))"

definition context_add_pattern ::
  "Context \<Rightarrow> VibrationPattern option \<Rightarrow> Context \<times> VibrationPattern option" where
  "context_add_pattern ctx pat =
     (case pat of
        None \<Rightarrow> (ctx, None)
      | Some p \<Rightarrow>
          (if p \<in> set (pattern_pool ctx) then ctx
           else ctx\<lparr>pattern_pool := pattern_pool ctx @ [p]\<rparr>, Some p))"

text \<open>
  What the loader asks of the file system and of GLib's allocator: whether a path exists
  (\<open>g_file_test\<close> with \<open>G_FILE_TEST_EXISTS\<close>), the path \<open>g_build_filename\<close> makes
  of a search directory and a name, the key file a configuration file loads as (if it
  loads), and whether \<open>g_key_file_new\<close> gives a key file.
\<close>

record World =
  g_file_test :: "string \<Rightarrow> bool"
  g_build_filename :: "string option \<Rightarrow> string \<Rightarrow> string"
  g_key_file_load_from_file :: "string \<Rightarrow> GKeyFile option"
  g_key_file_new :: bool

subsection \<open>The resource reference parser\<close>

definition check_path :: "World \<Rightarrow> string \<Rightarrow> string option \<Rightarrow> string option" where
  "check_path w basename search_path =
     (if g_file_test w basename then Some basename
      else
        (let path = g_build_filename w search_path basename
         in if g_file_test w path then Some path else None))"

definition strip_prefix :: "string \<Rightarrow> string \<Rightarrow> string option" where
  "strip_prefix str pre =
     (if \<not> g_str_has_prefix str pre then None else Some (drop (length pre) str))"

text \<open>\<open>_parse_profile_key\<close>: the pair of \<open>*out_profile\<close> and \<open>*out_key\<close> when it returns \<open>TRUE\<close>.\<close>

definition parse_profile_key :: "string option \<Rightarrow> (string option \<times> string) option" where
  "parse_profile_key ky =
     (case ky of
        None \<Rightarrow> None
      | Some s \<Rightarrow>
          (case g_strsplit s (CHR ''@'') 2 of
             [] \<Rightarrow> None
           | s0 # rest \<Rightarrow> Some (case rest of [] \<Rightarrow> None | s1 # _ \<Rightarrow> Some s1, s0)))"

text \<open>
  In the parsers below a branch is entered when \<open>g_str_has_prefix\<close> holds and then
  works on the result of \<open>_strip_prefix\<close>, which is not \<open>NULL\<close> exactly then: the model
  branches on that result.
\<close>

definition parse_sound_path :: "World \<Rightarrow> Context \<Rightarrow> string option \<Rightarrow> Context \<times> SoundPath option" where
  "parse_sound_path w ctx str =
     (case str of
        None \<Rightarrow> (ctx, None)
      | Some s \<Rightarrow>
          (case strip_prefix s ''profile:'' of
             Some stripped \<Rightarrow>
               (case parse_profile_key (Some stripped) of
                  None \<Rightarrow> (ctx, None)
                | Some (profile, ky) \<Rightarrow>
                    context_add_sound_path ctx (Some (SOUND_PATH_TYPE_PROFILE profile ky)))
           | None \<Rightarrow>
               (case strip_prefix s ''filename:'' of
                  Some stripped \<Rightarrow>
                    (case check_path w stripped (sound_path ctx) of
                       None \<Rightarrow> (ctx, None)
                     | Some filename \<Rightarrow>
                         context_add_sound_path ctx (Some (SOUND_PATH_TYPE_FILENAME filename)))
                | None \<Rightarrow> context_add_sound_path ctx None)))"

fun create_sound_paths_loop ::
  "World \<Rightarrow> Context \<Rightarrow> string list \<Rightarrow> SoundPath list \<Rightarrow> Context \<times> SoundPath list" where
  "create_sound_paths_loop w ctx [] result = (ctx, result)"
| "create_sound_paths_loop w ctx (s # rest) result =
     (case parse_sound_path w ctx (Some s) of
        (ctx', None) \<Rightarrow> create_sound_paths_loop w ctx' rest result
      | (ctx', Some sp) \<Rightarrow> create_sound_paths_loop w ctx' rest (result @ [sp]))"

definition create_sound_paths :: "World \<Rightarrow> Context \<Rightarrow> string option \<Rightarrow> Context \<times> SoundPath list" where
  "create_sound_paths w ctx str =
     (case str of
        None \<Rightarrow> (ctx, [])
      | Some s \<Rightarrow>
          (case g_strsplit s (CHR '';'') (- 1) of
             [] \<Rightarrow> (ctx, [])
           | vec \<Rightarrow> create_sound_paths_loop w ctx vec []))"

text \<open>
  The loop \<open>for (i=0;i<3;i++)\<close> of \<open>_create_volume\<close>: it fails when the items run out,
  and stores \<open>atoi\<close> of the item in \<open>linear[i]\<close> otherwise.
\<close>

fun linear_loop :: "nat \<Rightarrow> string list \<Rightarrow> int list \<Rightarrow> int list option" where
  "linear_loop i item linear =
     (if i < 3 then
        (case item of
           [] \<Rightarrow> None
         | x # rest \<Rightarrow> linear_loop (i + 1) rest (linear[i := atoi x]))
      else Some linear)"

declare linear_loop.simps [simp del]

definition create_volume :: "Context \<Rightarrow> string option \<Rightarrow> Context \<times> Volume option" where
  "create_volume ctx str =
     (case str of
        None \<Rightarrow> (ctx, None)
      | Some s \<Rightarrow>
          (case strip_prefix s ''profile:'' of
             Some stripped \<Rightarrow>
               (case parse_profile_key (Some stripped) of
                  None \<Rightarrow> (ctx, None)
                | Some (profile, ky) \<Rightarrow>
                    context_add_volume ctx (Some (VOLUME_TYPE_PROFILE profile ky)))
           | None \<Rightarrow>
               (case strip_prefix s ''fixed:'' of
                  Some stripped \<Rightarrow>
                    context_add_volume ctx (Some (VOLUME_TYPE_FIXED (atoi stripped)))
                | None \<Rightarrow>
                    (case strip_prefix s ''linear:'' of
                       Some stripped \<Rightarrow>
                         (let level = 100
                          in case g_strsplit stripped (CHR '';'') (- 1) of
                               [] \<Rightarrow> (ctx, None)
                             | split \<Rightarrow>
                                 (case linear_loop 0 split [0, 0, 0] of
                                    None \<Rightarrow> (ctx, None)
                                  | Some linear \<Rightarrow>
                                      context_add_volume ctx
                                        (Some (VOLUME_TYPE_LINEAR level linear))))
                     | None \<Rightarrow> context_add_volume ctx None))))"

definition parse_pattern ::
  "World \<Rightarrow> Context \<Rightarrow> string option \<Rightarrow> Context \<times> VibrationPattern option" where
  "parse_pattern w ctx str =
     (case str of
        None \<Rightarrow> (ctx, None)
      | Some s \<Rightarrow>
          (case strip_prefix s ''profile:'' of
             Some stripped \<Rightarrow>
               (case parse_profile_key (Some stripped) of
                  None \<Rightarrow> (ctx, None)
                | Some (profile, ky) \<Rightarrow>
                    context_add_pattern ctx (Some (VIBRATION_PATTERN_TYPE_PROFILE profile ky)))
           | None \<Rightarrow>
               (case strip_prefix s ''filename:'' of
                  Some stripped \<Rightarrow>
                    (case check_path w stripped (patterns_path ctx) of
                       None \<Rightarrow> (ctx, None)
                     | Some filename \<Rightarrow>
                         context_add_pattern ctx (Some (VIBRATION_PATTERN_TYPE_FILENAME filename)))
                | None \<Rightarrow>
                    (case strip_prefix s ''internal:'' of
                       Some stripped \<Rightarrow>
                         context_add_pattern ctx
                           (Some (VIBRATION_PATTERN_TYPE_INTERNAL (atoi stripped)))
                     | None \<Rightarrow> context_add_pattern ctx None))))"

fun create_patterns_loop ::
  "World \<Rightarrow> Context \<Rightarrow> string list \<Rightarrow> VibrationPattern list
    \<Rightarrow> Context \<times> VibrationPattern list" where
  "create_patterns_loop w ctx [] result = (ctx, result)"
| "create_patterns_loop w ctx (i # rest) result =
     (case parse_pattern w ctx (Some i) of
        (ctx', None) \<Rightarrow> create_patterns_loop w ctx' rest result
      | (ctx', Some pat) \<Rightarrow> create_patterns_loop w ctx' rest (result @ [pat]))"

definition create_patterns ::
  "World \<Rightarrow> Context \<Rightarrow> string option \<Rightarrow> Context \<times> VibrationPattern list" where
  "create_patterns w ctx str =
     (case str of
        None \<Rightarrow> (ctx, [])
      | Some s \<Rightarrow>
          (case g_strsplit s (CHR '';'') (- 1) of
             [] \<Rightarrow> (ctx, [])
           | vec \<Rightarrow> create_patterns_loop w ctx vec []))"

subsection \<open>The event materializer\<close>

definition finalize_event :: "World \<Rightarrow> Context \<Rightarrow> string option \<Rightarrow> NProplist option \<Rightarrow> Context" where
  "finalize_event w ctx name proplist =
     (case name of
        None \<Rightarrow> ctx
      | Some nm \<Rightarrow>
          (let r1 = create_sound_paths w ctx (n_proplist_get_string proplist ''sound'');
               r2 = create_volume (fst r1) (n_proplist_get_string proplist ''volume'');
               r3 = create_patterns w (fst r2) (n_proplist_get_string proplist ''vibration'');
               event =
                 \<lparr>audio_enabled = n_proplist_get_bool proplist ''audio_enabled'',
                  vibration_enabled = n_proplist_get_bool proplist ''vibration_enabled'',
                  leds_enabled = n_proplist_get_bool proplist ''led_enabled'',
                  backlight_enabled = n_proplist_get_bool proplist ''backlight_enabled'',
                  allow_custom = n_proplist_get_bool proplist ''allow_custom'',
                  max_timeout = n_proplist_get_int proplist ''max_timeout'',
                  lookup_pattern = n_proplist_get_bool proplist ''lookup_pattern'',
                  silent_enabled = n_proplist_get_bool proplist ''silent_enabled'',
                  event_id = n_proplist_get_string proplist ''event_id'',
                  tone_generator_enabled = n_proplist_get_bool proplist ''audio_tonegen_enabled'',
                  tone_generator_pattern = n_proplist_get_int proplist ''audio_tonegen_pattern'',
                  repeat = n_proplist_get_bool proplist ''audio_repeat'',
                  num_repeats = n_proplist_get_int proplist ''audio_max_repeats'',
                  led_pattern = n_proplist_get_string proplist ''led_pattern'',
                  sounds = snd r1,
                  volume = snd r2,
                  patterns = snd r3\<rparr>
           in (fst r3)\<lparr>registry_events := g_hash_table_insert (registry_events (fst r3)) nm event\<rparr>))"

subsection \<open>The resolution driver\<close>

text \<open>The first loop of \<open>_parse_events\<close>: the table from event name to group.\<close>

fun index_groups :: "string list \<Rightarrow> (string \<times> string) list \<Rightarrow> (string \<times> string) list" where
  "index_groups [] tbl = tbl"
| "index_groups (grp # rest) tbl =
     (if \<not> g_str_has_prefix grp GROUP_EVENT then index_groups rest tbl
      else
        (case parse_group_name grp of
           Some name \<Rightarrow> index_groups rest (g_hash_table_insert tbl name grp)
         | None \<Rightarrow> index_groups rest tbl))"

text \<open>The second loop: every key of the table is resolved; it returns only if each call does.\<close>

fun parse_each_event ::
  "GKeyFile \<Rightarrow> SettingsData \<times> string list \<Rightarrow> string list
    \<Rightarrow> (SettingsData \<times> string list) option" where
  "parse_each_event k st [] = Some st"
| "parse_each_event k st (ky # rest) =
     (case parse_single_event k st (Some ky) of
        None \<Rightarrow> None
      | Some st' \<Rightarrow> parse_each_event k st' rest)"

text \<open>The third loop: every pair of the events table is materialized.\<close>

fun finalize_each_event ::
  "World \<Rightarrow> Context \<Rightarrow> (string \<times> NProplist option) list \<Rightarrow> Context" where
  "finalize_each_event w ctx [] = ctx"
| "finalize_each_event w ctx ((ky, evtdata) # rest) =
     finalize_each_event w (finalize_event w ctx (Some ky) evtdata) rest"

definition parse_events :: "World \<Rightarrow> Context \<Rightarrow> GKeyFile \<Rightarrow> Context option" where
  "parse_events w ctx k =
     (let data = \<lparr>groups = index_groups (g_key_file_get_groups k) [], events = []\<rparr>
      in case parse_each_event k (data, []) (map fst (groups data)) of
           None \<Rightarrow> None
         | Some st \<Rightarrow> Some (finalize_each_event w ctx (events (fst st))))"

fun parse_definitions_loop :: "GKeyFile \<Rightarrow> string list \<Rightarrow> Context \<Rightarrow> Context" where
  "parse_definitions_loop k [] ctx = ctx"
| "parse_definitions_loop k (grp # rest) ctx =
     (if \<not> g_str_has_prefix grp GROUP_DEFINITION then parse_definitions_loop k rest ctx
      else
        (case parse_group_name grp of
           None \<Rightarrow> parse_definitions_loop k rest ctx
         | Some name \<Rightarrow>
             (let def =
                    \<lparr>long_event = returned_string (g_key_file_get_string k grp ''long''),
                     short_event = returned_string (g_key_file_get_string k grp ''short''),
                     meeting_event = returned_string (g_key_file_get_string k grp ''meeting'')\<rparr>
              in parse_definitions_loop k rest
                   (ctx\<lparr>definitions := g_hash_table_insert (definitions ctx) name def\<rparr>))))"

definition parse_definitions :: "Context \<Rightarrow> GKeyFile \<Rightarrow> Context" where
  "parse_definitions ctx k = parse_definitions_loop k (g_key_file_get_groups k) ctx"

definition parse_required_plugins :: "Context \<Rightarrow> GKeyFile \<Rightarrow> Context" where
  "parse_required_plugins ctx k =
     (case returned_string (g_key_file_get_string k GROUP_GENERAL ''plugins'') of
        None \<Rightarrow> ctx
      | Some v \<Rightarrow>
          ctx\<lparr>required_plugins := required_plugins ctx @ g_strsplit v (CHR '' '') (- 1)\<rparr>)"

text \<open>
  The loop \<open>for (i=0;i<3;i++)\<close> of \<open>_parse_general\<close>: it returns when the items run
  out, keeping what it has stored in \<open>system_volume\<close> so far.
\<close>

fun system_volume_loop :: "nat \<Rightarrow> string list \<Rightarrow> Context \<Rightarrow> Context" where
  "system_volume_loop i item ctx =
     (if i < 3 then
        (case item of
           [] \<Rightarrow> ctx
         | x # rest \<Rightarrow>
             system_volume_loop (i + 1) rest
               (ctx\<lparr>system_volume := (system_volume ctx)[i := atoi x]\<rparr>))
      else ctx)"

declare system_volume_loop.simps [simp del]

text \<open>
  \<open>_parse_general\<close> hands the result of \<open>g_key_file_get_string\<close> for
  \<open>system_volume\<close> to \<open>g_strsplit\<close> and reads \<open>split[0]\<close> with no check in between.
  For a \<open>NULL\<close> string \<open>g_strsplit\<close> returns \<open>NULL\<close> (its \<open>g_return_val_if_fail\<close>),
  and \<open>split[0]\<close> reads through the null pointer: the process faults.
\<close>

datatype fault = NULL_POINTER_DEREFERENCE

definition parse_general :: "Context \<Rightarrow> GKeyFile \<Rightarrow> fault + Context" where
  "parse_general ctx0 k =
     (let ctx = parse_required_plugins ctx0 k;
          ctx = ctx\<lparr>patterns_path :=
                  returned_string (g_key_file_get_string k GROUP_GENERAL ''vibration_search_path'')\<rparr>;
          ctx = ctx\<lparr>sound_path :=
                  returned_string (g_key_file_get_string k GROUP_GENERAL ''sound_search_path'')\<rparr>;
          ctx = ctx\<lparr>audio_buffer_time :=
                  returned_integer (g_key_file_get_integer k GROUP_GENERAL ''buffer_time'')\<rparr>;
          ctx = ctx\<lparr>audio_latency_time :=
                  returned_integer (g_key_file_get_integer k GROUP_GENERAL ''latency_time'')\<rparr>
      in case returned_string (g_key_file_get_string k GROUP_GENERAL ''system_volume'') of
           None \<Rightarrow> Inl NULL_POINTER_DEREFERENCE
         | Some v \<Rightarrow>
             (case g_strsplit v (CHR '';'') (- 1) of
                [] \<Rightarrow> Inr ctx
              | split \<Rightarrow> Inr (system_volume_loop 0 split ctx)))"

definition conf_files :: "string list" where
  "conf_files = [''/etc/ngf/ngf.ini'', ''./ngf.ini'']"

text \<open>The loop over \<open>conf_files\<close>: the key file of the first file that loads.\<close>

fun load_first :: "World \<Rightarrow> string list \<Rightarrow> GKeyFile option" where
  "load_first w [] = None"
| "load_first w (filename # rest) =
     (case g_key_file_load_from_file w filename of
        Some key_file \<Rightarrow> Some key_file
      | None \<Rightarrow> load_first w rest)"

text \<open>
  \<open>load_settings\<close>: \<open>None\<close> when it does not return (the resolver recurses without
  end), a fault when the process faults, and otherwise the returned \<open>gboolean\<close> with the
  context it leaves.
\<close>

definition load_settings :: "World \<Rightarrow> Context \<Rightarrow> (fault + bool \<times> Context) option" where
  "load_settings w ctx =
     (if \<not> g_key_file_new w then Some (Inr (False, ctx))
      else
        (case load_first w conf_files of
           None \<Rightarrow> Some (Inr (False, ctx))
         | Some key_file \<Rightarrow>
             (case parse_general ctx key_file of
                Inl f \<Rightarrow> Some (Inl f)
              | Inr ctx1 \<Rightarrow>
                  (case parse_events w (parse_definitions ctx1 key_file) key_file of
                     None \<Rightarrow> None
                   | Some ctx2 \<Rightarrow> Some (Inr (True, ctx2))))))"

subsection \<open>Notions and fixtures of the statements\<close>

text \<open>An empty registry.\<close>

definition fresh_context :: Context where
  "fresh_context = \<lparr>required_plugins = [], patterns_path = None, sound_path = None,
     audio_buffer_time = 0, audio_latency_time = 0, system_volume = [0, 0, 0], definitions = [],
     registry_events = [], sound_path_pool = [], volume_pool = [], pattern_pool = []\<rparr>"


text \<open>
  What a schema field reads as in a group when it is present and well typed, and the
  value of the schema's default for it: none for a string field whose default is
  \<open>NULL\<close>.
\<close>

definition source_value :: "GKeyFile \<Rightarrow> string \<Rightarrow> KeyEntry \<Rightarrow> NValue option" where
  "source_value k grp e =
     (case entry_type e of
        KEY_ENTRY_TYPE_STRING \<Rightarrow>
          (case g_key_file_get_string k grp (entry_key e) of
             Found s \<Rightarrow> Some (NString s)
           | Failed _ \<Rightarrow> None)
      | KEY_ENTRY_TYPE_INT \<Rightarrow>
          (case g_key_file_get_integer k grp (entry_key e) of
             Found i \<Rightarrow> Some (NInt i)
           | Failed _ \<Rightarrow> None)
      | KEY_ENTRY_TYPE_BOOL \<Rightarrow>
          (case g_key_file_get_boolean k grp (entry_key e) of
             Found b \<Rightarrow> Some (NBool b)
           | Failed _ \<Rightarrow> None))"

definition schema_default :: "KeyEntry \<Rightarrow> NValue option" where
  "schema_default e =
     (case entry_type e of
        KEY_ENTRY_TYPE_STRING \<Rightarrow> map_option NString (def_str e)
      | KEY_ENTRY_TYPE_INT \<Rightarrow> Some (NInt (def_int e))
      | KEY_ENTRY_TYPE_BOOL \<Rightarrow> Some (NBool (def_int e \<noteq> 0)))"

text \<open>
  The names one call of the resolver appends to the done list, given the group table and
  the done list it starts from: none for a name that is done or has no group, and
  otherwise the names of the parent's call followed by the name itself.
\<close>

inductive resolve_chain ::
  "(string \<times> string) list \<Rightarrow> string list \<Rightarrow> string \<Rightarrow> string list \<Rightarrow> bool"
  for grps :: "(string \<times> string) list" and dn :: "string list" where
  chain_done: "nm \<in> set dn \<Longrightarrow> resolve_chain grps dn nm []"
| chain_no_group: "nm \<notin> set dn \<Longrightarrow> map_of grps nm = None \<Longrightarrow> resolve_chain grps dn nm []"
| chain_base:
    "nm \<notin> set dn \<Longrightarrow> map_of grps nm = Some grp \<Longrightarrow> parse_group_parent (Some grp) = None
      \<Longrightarrow> resolve_chain grps dn nm [nm]"
| chain_derived:
    "nm \<notin> set dn \<Longrightarrow> map_of grps nm = Some grp \<Longrightarrow> parse_group_parent (Some grp) = Some parent
      \<Longrightarrow> resolve_chain grps dn parent ys \<Longrightarrow> resolve_chain grps dn nm (ys @ [nm])"

text \<open>
  A small configuration for the concrete evaluations below: a base event \<open>p\<close>, two
  events \<open>a\<close> and \<open>b\<close> derived from it, and an event \<open>c\<close> whose parent \<open>ghost\<close>
  has no group.
\<close>

definition example_key_file :: GKeyFile where
  "example_key_file =
     \<lparr>g_key_file_get_groups =
        [''general'', ''event p'', ''event a@p'', ''event b@p'', ''event c@ghost''],
      g_key_file_get_string =
        (\<lambda>g k. if g = ''general'' \<and> k = ''system_volume'' then Found ''1;2;3''
               else Failed G_KEY_FILE_ERROR_KEY_NOT_FOUND),
      g_key_file_get_integer =
        (\<lambda>g k. if g = ''event p'' \<and> k = ''max_timeout'' then Found 7
               else if g = ''event a@p'' \<and> k = ''max_timeout'' then Found 5
               else if g = ''event c@ghost'' \<and> k = ''max_timeout'' then Found 9
               else if k = ''dummy'' then Failed G_KEY_FILE_ERROR_INVALID_VALUE
               else Failed G_KEY_FILE_ERROR_KEY_NOT_FOUND),
      g_key_file_get_boolean = (\<lambda>g k. Failed G_KEY_FILE_ERROR_KEY_NOT_FOUND)\<rparr>"

definition example_state :: "SettingsData \<times> string list" where
  "example_state =
     (\<lparr>groups = [(''p'', ''event p''), (''a'', ''event a@p''), (''b'', ''event b@p''),
                 (''c'', ''event c@ghost'')],
       events = []\<rparr>, [])"

definition example_after_p :: "SettingsData \<times> string list" where
  "example_after_p = store_event example_key_file example_state ''p'' ''event p'' None"

definition example_after_a :: "SettingsData \<times> string list" where
  "example_after_a = store_event example_key_file example_after_p ''a'' ''event a@p'' (Some ''p'')"

definition example_after_b :: "SettingsData \<times> string list" where
  "example_after_b = store_event example_key_file example_after_a ''b'' ''event b@p'' (Some ''p'')"

text \<open>
  The same key file without a \<open>system_volume\<close> key, one whose two events name each
  other as parent, and a world in which only \<open>./ngf.ini\<close> loads, as a given key file.
\<close>

definition example_key_file_no_volume :: GKeyFile where
  "example_key_file_no_volume =
     example_key_file\<lparr>g_key_file_get_string := (\<lambda>g k. Failed G_KEY_FILE_ERROR_KEY_NOT_FOUND)\<rparr>"

definition cyclic_state :: "SettingsData \<times> string list" where
  "cyclic_state = (\<lparr>groups = [(''x'', ''event x@y''), (''y'', ''event y@x'')], events = []\<rparr>, [])"

definition example_world :: "GKeyFile \<Rightarrow> World" where
  "example_world k =
     \<lparr>g_file_test = (\<lambda>p. False),
      g_build_filename = (\<lambda>d n. case d of None \<Rightarrow> [] | Some dir \<Rightarrow> dir @ ''/'' @ n),
      g_key_file_load_from_file = (\<lambda>f. if f = ''./ngf.ini'' then Some k else None),
      g_key_file_new = True\<rparr>"

text \<open>
  Splitting a string at every occurrence of a delimiter, by recursion on the string: the
  tokens are the stretches between delimiters, empty ones included.
\<close>

fun split_every :: "char \<Rightarrow> string \<Rightarrow> string list" where
  "split_every d [] = [[]]"
| "split_every d (c # cs) =
     (if c = d then [] # split_every d cs
      else (case split_every d cs of t # ts \<Rightarrow> (c # t) # ts | [] \<Rightarrow> [[c]]))"












section \<open>Properties\<close>

lemmas atoi_eval =
  atoi_def strtol_def long_to_int_def LONG_MAX_def LONG_MIN_def Let_def isspace_def isdigit_def

subsection \<open>Splitting and the identifier parser\<close>

lemma g_strsplit_loop_one: "g_strsplit_loop d 1 r = [r]"
  by (subst g_strsplit_loop.simps) simp

lemma g_strsplit_two:
  "name \<noteq> [] \<Longrightarrow> g_strsplit name d 2 =
     (if d \<in> set name
      then [takeWhile (\<lambda>c. c \<noteq> d) name, tl (dropWhile (\<lambda>c. c \<noteq> d) name)]
      else [name])"
  unfolding g_strsplit_def
  by (subst g_strsplit_loop.simps) (simp add: g_strsplit_loop_one)

lemma strip_group_type_no_space: "CHR '' '' \<notin> set raw \<Longrightarrow> strip_group_type raw = None"
  by (simp add: strip_group_type_def)

lemma strip_group_type_nonempty: "strip_group_type raw = Some rest \<Longrightarrow> rest \<noteq> []"
  by (auto simp: strip_group_type_def Let_def split: if_splits)

lemma parse_group_name_eq:
  "parse_group_name raw =
     (case strip_group_type raw of
        None \<Rightarrow> None
      | Some rest \<Rightarrow> Some (takeWhile (\<lambda>c. c \<noteq> CHR ''@'') rest))"
proof (cases "strip_group_type raw")
  case None
  then show ?thesis by (simp add: parse_group_name_def)
next
  case (Some rest)
  then have ne: "rest \<noteq> []" by (rule strip_group_type_nonempty)
  show ?thesis
  proof (cases "CHR ''@'' \<in> set rest")
    case True
    with Some ne show ?thesis by (simp add: parse_group_name_def g_strsplit_two)
  next
    case False
    then have "rest = takeWhile (\<lambda>c. c \<noteq> CHR ''@'') rest"
      by (induction rest) auto
    moreover from Some ne False
    have "parse_group_name raw = Some rest" by (simp add: parse_group_name_def g_strsplit_two)
    ultimately show ?thesis using Some by (simp only: option.case)

  qed
qed

lemma parse_group_parent_eq:
  "parse_group_parent (Some raw) =
     (case strip_group_type raw of
        None \<Rightarrow> None
      | Some rest \<Rightarrow>
          if CHR ''@'' \<in> set rest then Some (tl (dropWhile (\<lambda>c. c \<noteq> CHR ''@'') rest)) else None)"
  by (auto simp: parse_group_parent_def g_strsplit_two
      dest!: strip_group_type_nonempty split: option.splits)

text \<open>
  C7: the identifier parser on the spec's examples. \<open>"event foo@bar"\<close> gives the name
  \<open>foo\<close> and the parent \<open>bar\<close>; \<open>"event foo"\<close> gives the name \<open>foo\<close> and no
  parent; \<open>"event "\<close>, the type tag followed by a space and nothing else, gives nothing;
  and a string with no space after the type tag gives nothing either.
\<close>

theorem identifier_examples:
  "parse_group_name ''event foo@bar'' = Some ''foo''
   \<and> parse_group_parent (Some ''event foo@bar'') = Some ''bar''
   \<and> parse_group_name ''event foo'' = Some ''foo''
   \<and> parse_group_parent (Some ''event foo'') = None
   \<and> parse_group_name ''event '' = None
   \<and> parse_group_parent (Some ''event '') = None
   \<and> (\<forall>raw. CHR '' '' \<notin> set raw \<longrightarrow>
         parse_group_name raw = None \<and> parse_group_parent (Some raw) = None)"
  by (simp add: parse_group_name_eq parse_group_parent_eq strip_group_type_no_space)
     (simp add: strip_group_type_def)

theorem identifier_examples_witness:
  "CHR '' '' \<notin> set ''event''
   \<and> parse_group_name ''event'' = None \<and> parse_group_parent (Some ''event'') = None"
  using identifier_examples by simp

text \<open>
  C6, as amended: whenever the parser returns a name, the text left after the type tag is
  not empty and the name is its part before the first \<open>@\<close>, which is empty exactly
  when that text starts with \<open>@\<close>; the parent, when there is one, is the part after the
  first \<open>@\<close>, whatever it holds; and the parser returns nothing whenever nothing is
  left after stripping the type tag.
\<close>

theorem identifier_components:
  "(parse_group_name raw = Some n \<longleftrightarrow>
      (\<exists>rest. strip_group_type raw = Some rest \<and> n = takeWhile (\<lambda>c. c \<noteq> CHR ''@'') rest))
   \<and> (parse_group_parent (Some raw) = Some p \<longleftrightarrow>
      (\<exists>rest. strip_group_type raw = Some rest \<and> CHR ''@'' \<in> set rest
         \<and> p = tl (dropWhile (\<lambda>c. c \<noteq> CHR ''@'') rest)))
   \<and> (strip_group_type raw = Some rest \<longrightarrow>
        rest \<noteq> [] \<and> (takeWhile (\<lambda>c. c \<noteq> CHR ''@'') rest = [] \<longleftrightarrow> hd rest = CHR ''@''))
   \<and> (strip_group_type raw = None \<longrightarrow>
        parse_group_name raw = None \<and> parse_group_parent (Some raw) = None)"
proof -
  have "takeWhile (\<lambda>c. c \<noteq> CHR ''@'') rest = [] \<longleftrightarrow> hd rest = CHR ''@''" if "rest \<noteq> []"
    using that by (cases rest) auto
  then show ?thesis
    by (auto simp: parse_group_name_eq parse_group_parent_eq dest: strip_group_type_nonempty
        split: option.splits if_splits)
qed

theorem identifier_components_witness:
  "strip_group_type ''event @bar'' = Some ''@bar''
   \<and> ''@bar'' \<noteq> []
   \<and> takeWhile (\<lambda>c. c \<noteq> CHR ''@'') ''@bar'' = []
   \<and> hd ''@bar'' = CHR ''@''
   \<and> strip_group_type ''event'' = None
   \<and> parse_group_name ''event'' = None
   \<and> parse_group_parent (Some ''event'') = None"
proof -
  have h1: "strip_group_type ''event @bar'' = Some ''@bar''"
    by (simp add: strip_group_type_def)
  have h2: "strip_group_type ''event'' = None"
    by (simp add: strip_group_type_def)
  note t = identifier_components [where raw = "''event @bar''" and rest = "''@bar''"]
  note u = identifier_components [where raw = "''event''"]
  from t [THEN conjunct2, THEN conjunct2, THEN conjunct1, rule_format, OF h1]
    u [THEN conjunct2, THEN conjunct2, THEN conjunct2, rule_format, OF h2] h1 h2
  show ?thesis by simp
qed

text \<open>
  C6 as the spec states it fails: \<open>"event @bar"\<close> parses to the empty name, and
  \<open>"event foo@"\<close> to the empty parent.
\<close>

theorem identifier_empty_components:
  "parse_group_name ''event @bar'' = Some '''' \<and> parse_group_parent (Some ''event foo@'') = Some ''''"
  by (simp add: parse_group_name_eq parse_group_parent_eq strip_group_type_def)

subsection \<open>The resource reference parser\<close>


lemma map_of_g_hash_table_insert:
  "map_of (g_hash_table_insert t k v) = (map_of t)(k \<mapsto> v)"
  by (induction t) auto


text \<open>
  C3, as amended: \<open>"linear:10;20;30"\<close> parses to a linear volume whose level is 100,
  the constant \<open>_create_volume\<close> stores for every linear volume, and whose three-element
  ramp is 10, 20, 30.
\<close>

theorem linear_volume_example:
  "snd (create_volume ctx (Some ''linear:10;20;30'')) = Some (VOLUME_TYPE_LINEAR 100 [10, 20, 30])"
  by (simp add: create_volume_def strip_prefix_def g_str_has_prefix_def g_strsplit_def G_MAXINT_def
      g_strsplit_loop.simps linear_loop.simps atoi_eval
      context_add_volume_def)

text \<open>
  C3 as the spec states it fails: the level of the volume parsed from
  \<open>"linear:10;20;30"\<close> is not 10, the first item of the ramp.
\<close>

theorem linear_volume_level_not_first_item:
  "snd (create_volume fresh_context (Some ''linear:10;20;30'')) \<noteq> Some (VOLUME_TYPE_LINEAR 10 [10, 20, 30])"
  by (simp add: create_volume_def strip_prefix_def g_str_has_prefix_def g_strsplit_def G_MAXINT_def
      g_strsplit_loop.simps linear_loop.simps atoi_eval
      context_add_volume_def fresh_context_def)












lemma split_every_not_Nil: "split_every d s \<noteq> []"
  by (induction s) (auto split: list.splits)























subsection \<open>The property resolver\<close>

lemma event_is_done_iff: "event_is_done ds (Some n) \<longleftrightarrow> n \<in> set ds"
  by (induction ds) auto

lemma add_entry_eq:
  "add_entry k grp b e p =
     (case source_value k grp e of
        Some v \<Rightarrow> g_hash_table_insert p (entry_key e) v
      | None \<Rightarrow>
          (case (if b then schema_default e else None) of
             Some v \<Rightarrow> g_hash_table_insert p (entry_key e) v
           | None \<Rightarrow> p))"
  by (auto simp: add_entry_def source_value_def schema_default_def add_property_string_def
      add_property_int_def add_property_bool_def n_proplist_set_string_def
      n_proplist_set_int_def n_proplist_set_bool_def
      split: KeyEntryType.splits key_result.splits option.splits)

lemma fold_add_entry_other:
  "ky \<notin> entry_key ` set es \<Longrightarrow>
   map_of (fold (add_entry k grp b) es p) ky = map_of p ky"
  by (induction es arbitrary: p)
     (auto simp: add_entry_eq map_of_g_hash_table_insert split: option.splits)

lemma fold_add_entry_lookup:
  "distinct (map entry_key es) \<Longrightarrow> e \<in> set es \<Longrightarrow>
   map_of (fold (add_entry k grp b) es p) (entry_key e) =
     (case source_value k grp e of
        Some v \<Rightarrow> Some v
      | None \<Rightarrow>
          (case (if b then schema_default e else None) of
             Some v \<Rightarrow> Some v
           | None \<Rightarrow> map_of p (entry_key e)))"
proof (induction es arbitrary: p)
  case Nil
  then show ?case by simp
next
  case (Cons a es)
  show ?case
  proof (cases "e = a")
    case True
    with Cons.prems have "entry_key e \<notin> entry_key ` set es" by auto
    then show ?thesis
      using True
      by (simp add: fold_add_entry_other)
         (simp add: add_entry_eq map_of_g_hash_table_insert split: option.splits)
  next
    case False
    with Cons.prems have "e \<in> set es" "distinct (map entry_key es)" "entry_key a \<noteq> entry_key e"
      by auto
    then show ?thesis
      using Cons.IH [of "add_entry k grp b a p"]
      by (auto simp: add_entry_eq map_of_g_hash_table_insert split: option.splits)
  qed
qed

lemma event_entries_distinct: "distinct (map entry_key event_entries)"
  by (simp add: event_entries_def entry_def)

lemma event_proplist_lookup:
  "e \<in> set event_entries \<Longrightarrow>
   map_of (event_proplist k grp b) (entry_key e) =
     (case source_value k grp e of
        Some v \<Rightarrow> Some v
      | None \<Rightarrow> if b then schema_default e else None)"
  by (simp add: event_proplist_def fold_add_entry_lookup [OF event_entries_distinct]
      n_proplist_new_def split: option.splits)

lemma schema_default_kinds:
  "e \<in> set event_entries \<Longrightarrow>
   (entry_type e = KEY_ENTRY_TYPE_STRING \<longrightarrow> schema_default e = None)
   \<and> (entry_type e \<noteq> KEY_ENTRY_TYPE_STRING \<longrightarrow> schema_default e \<noteq> None)"
  by (auto simp: event_entries_def entry_def schema_default_def)

lemma event_proplist_only_schema:
  "ky \<notin> entry_key ` set event_entries \<Longrightarrow> map_of (event_proplist k grp b) ky = None"
  by (simp add: event_proplist_def fold_add_entry_other n_proplist_new_def)

lemma parse_single_event_base:
  assumes "map_of (groups (fst st)) name = Some grp"
    and "parse_group_parent (Some grp) = None"
    and "\<not> event_is_done (snd st) (Some name)"
  shows "parse_single_event k st (Some name) = Some (store_event k st name grp None)"
  using assms by (subst parse_single_event.simps) simp

lemma parse_single_event_derived:
  assumes "map_of (groups (fst st)) name = Some grp"
    and "parse_group_parent (Some grp) = Some parent"
    and "\<not> event_is_done (snd st) (Some name)"
  shows "parse_single_event k st (Some name) =
     Option.bind (parse_single_event k st (Some parent))
       (\<lambda>st'. Some (store_event k st' name grp (Some parent)))"
  using assms by (subst parse_single_event.simps) simp

lemma parse_single_event_done:
  "event_is_done (snd st) (Some name) \<Longrightarrow> parse_single_event k st (Some name) = Some st"
  by (subst parse_single_event.simps) simp

lemma parse_single_event_no_group:
  "map_of (groups (fst st)) name = None \<Longrightarrow> parse_single_event k st (Some name) = Some st"
  by (subst parse_single_event.simps) simp

lemma parse_single_event_null: "parse_single_event k st None = Some st"
  by (subst parse_single_event.simps) simp

lemma store_event_fields:
  "snd (store_event k st name grp parent) = snd st @ [name]"
  "groups (fst (store_event k st name grp parent)) = groups (fst st)"
  "map_of (events (fst (store_event k st name grp None))) name = Some (Some (event_proplist k grp True))"
  "map_of (events (fst (store_event k st name grp (Some p)))) name =
     Some (n_proplist_merge (n_proplist_copy (g_hash_table_lookup (events (fst st)) p))
       (event_proplist k grp False))"
  by (simp_all add: store_event_def Let_def map_of_g_hash_table_insert)


lemma example_parent_none: "parse_group_parent (Some ''event p'') = None"
  by (simp add: parse_group_parent_eq strip_group_type_def)

lemma example_parent_a: "parse_group_parent (Some ''event a@p'') = Some ''p''"
  by (simp add: parse_group_parent_eq strip_group_type_def)

lemma example_parent_b: "parse_group_parent (Some ''event b@p'') = Some ''p''"
  by (simp add: parse_group_parent_eq strip_group_type_def)

lemma example_parent_c: "parse_group_parent (Some ''event c@ghost'') = Some ''ghost''"
  by (simp add: parse_group_parent_eq strip_group_type_def)

lemma example_resolve_p:
  "parse_single_event example_key_file example_state (Some ''p'') =
     Some (store_event example_key_file example_state ''p'' ''event p'' None)"
  by (rule parse_single_event_base) (simp_all add: example_state_def example_parent_none)

lemma max_timeout_entry: "entry KEY_ENTRY_TYPE_INT ''max_timeout'' 0 None \<in> set event_entries"
  by (simp add: event_entries_def)

lemma tonegen_entry:
  "entry KEY_ENTRY_TYPE_INT ''audio_tonegen_pattern'' (- 1) None \<in> set event_entries"
  by (simp add: event_entries_def)


lemma example_proplist_p:
  "event_proplist example_key_file ''event p'' True =
     [(''max_timeout'', NInt 7), (''allow_custom'', NBool False), (''dummy'', NInt 0),
      (''audio_enabled'', NBool False), (''audio_repeat'', NBool False),
      (''audio_max_repeats'', NInt 0), (''silent_enabled'', NBool False),
      (''audio_tonegen_enabled'', NBool False), (''audio_tonegen_pattern'', NInt (- 1)),
      (''vibration_enabled'', NBool False), (''lookup_pattern'', NBool False),
      (''led_enabled'', NBool False), (''backlight_enabled'', NBool False)]"
  by (simp add: event_proplist_def event_entries_def entry_def add_entry_def
      add_property_string_def add_property_int_def add_property_bool_def
      n_proplist_set_string_def n_proplist_set_int_def n_proplist_set_bool_def
      n_proplist_new_def example_key_file_def)



text \<open>
  C4, as amended: for an event that is not yet done and whose declared parent has no
  group, resolving the parent changes nothing (the link is inert), and the event is still
  resolved as a derived event: its own pass set holds exactly the schema fields that are
  present and well typed in its group, with no schema default and no other key, and what
  is stored for it is that set merged onto a copy of whatever the events table holds for
  the parent's name.
\<close>

theorem unresolved_parent_stays_derived:
  "map_of (groups (fst st)) name = Some grp \<and> parse_group_parent (Some grp) = Some parent
     \<and> map_of (groups (fst st)) parent = None \<and> \<not> event_is_done (snd st) (Some name) \<longrightarrow>
   parse_single_event k st (Some parent) = Some st
   \<and> (\<exists>st'. parse_single_event k st (Some name) = Some st'
        \<and> snd st' = snd st @ [name]
        \<and> map_of (events (fst st')) name =
            Some (n_proplist_merge (n_proplist_copy (g_hash_table_lookup (events (fst st)) parent))
              (event_proplist k grp False)))
   \<and> (\<forall>e\<in>set event_entries.
         map_of (event_proplist k grp False) (entry_key e) = source_value k grp e)
   \<and> (\<forall>ky. ky \<notin> entry_key ` set event_entries \<longrightarrow>
         map_of (event_proplist k grp False) ky = None)"
proof (intro impI)
  assume h: "map_of (groups (fst st)) name = Some grp \<and> parse_group_parent (Some grp) = Some parent
     \<and> map_of (groups (fst st)) parent = None \<and> \<not> event_is_done (snd st) (Some name)"
  then have inert: "parse_single_event k st (Some parent) = Some st"
    by (simp add: parse_single_event_no_group)
  with h have "parse_single_event k st (Some name) = Some (store_event k st name grp (Some parent))"
    by (simp add: parse_single_event_derived)
  then have "\<exists>st'. parse_single_event k st (Some name) = Some st'
        \<and> snd st' = snd st @ [name]
        \<and> map_of (events (fst st')) name =
            Some (n_proplist_merge (n_proplist_copy (g_hash_table_lookup (events (fst st)) parent))
              (event_proplist k grp False))"
    by (simp add: store_event_fields)
  moreover have "\<forall>e\<in>set event_entries.
      map_of (event_proplist k grp False) (entry_key e) = source_value k grp e"
    by (simp add: event_proplist_lookup split: option.splits)
  moreover have "\<forall>ky. ky \<notin> entry_key ` set event_entries \<longrightarrow>
      map_of (event_proplist k grp False) ky = None"
    by (simp add: event_proplist_only_schema)
  ultimately show "parse_single_event k st (Some parent) = Some st
   \<and> (\<exists>st'. parse_single_event k st (Some name) = Some st'
        \<and> snd st' = snd st @ [name]
        \<and> map_of (events (fst st')) name =
            Some (n_proplist_merge (n_proplist_copy (g_hash_table_lookup (events (fst st)) parent))
              (event_proplist k grp False)))
   \<and> (\<forall>e\<in>set event_entries.
         map_of (event_proplist k grp False) (entry_key e) = source_value k grp e)
   \<and> (\<forall>ky. ky \<notin> entry_key ` set event_entries \<longrightarrow>
         map_of (event_proplist k grp False) ky = None)"
    using inert by blast
qed

theorem unresolved_parent_stays_derived_witness:
  "map_of (groups (fst example_state)) ''c'' = Some ''event c@ghost''
   \<and> parse_group_parent (Some ''event c@ghost'') = Some ''ghost''
   \<and> map_of (groups (fst example_state)) ''ghost'' = None
   \<and> \<not> event_is_done (snd example_state) (Some ''c'')
   \<and> parse_single_event example_key_file example_state (Some ''ghost'') = Some example_state
   \<and> map_of (event_proplist example_key_file ''event c@ghost'' False) ''max_timeout'' = Some (NInt 9)
   \<and> map_of (event_proplist example_key_file ''event c@ghost'' False) ''audio_tonegen_pattern'' = None
   \<and> map_of (event_proplist example_key_file ''event c@ghost'' False) ''fallback'' = None"
proof -
  have h: "map_of (groups (fst example_state)) ''c'' = Some ''event c@ghost''
     \<and> parse_group_parent (Some ''event c@ghost'') = Some ''ghost''
     \<and> map_of (groups (fst example_state)) ''ghost'' = None
     \<and> \<not> event_is_done (snd example_state) (Some ''c'')"
    by (simp add: example_state_def example_parent_c)
  note t = unresolved_parent_stays_derived [where st = example_state and name = "''c''"
      and grp = "''event c@ghost''" and parent = "''ghost''" and k = example_key_file,
      rule_format, OF h]
  from t have inert:
    "parse_single_event example_key_file example_state (Some ''ghost'') = Some example_state"
    by blast
  from t have own: "\<forall>e\<in>set event_entries.
      map_of (event_proplist example_key_file ''event c@ghost'' False) (entry_key e) =
        source_value example_key_file ''event c@ghost'' e"
    by blast
  from t have other: "\<forall>ky. ky \<notin> entry_key ` set event_entries \<longrightarrow>
      map_of (event_proplist example_key_file ''event c@ghost'' False) ky = None"
    by blast
  have v1: "map_of (event_proplist example_key_file ''event c@ghost'' False) ''max_timeout'' = Some (NInt 9)"
    using own [rule_format, OF max_timeout_entry]
    by (simp add: entry_def source_value_def example_key_file_def)
  have v2: "map_of (event_proplist example_key_file ''event c@ghost'' False) ''audio_tonegen_pattern'' = None"
    using own [rule_format, OF tonegen_entry]
    by (simp add: entry_def source_value_def example_key_file_def)
  have "''fallback'' \<notin> entry_key ` set event_entries"
    by (simp add: event_entries_def entry_def)
  with other have v3: "map_of (event_proplist example_key_file ''event c@ghost'' False) ''fallback'' = None"
    by blast
  from h inert v1 v2 v3 show ?thesis by blast
qed

text \<open>
  C4 as the spec states it fails: the event \<open>c\<close> of the example names the parent
  \<open>ghost\<close>, which has no group. It is resolved as a derived event, which is not what
  resolving it with no parent declared gives: the default -1 of
  \<open>audio_tonegen_pattern\<close>, which a base event gets, is not applied.
\<close>

theorem unresolved_parent_not_defaulted:
  "parse_single_event example_key_file example_state (Some ''c'') =
     Some (store_event example_key_file example_state ''c'' ''event c@ghost'' (Some ''ghost''))
   \<and> store_event example_key_file example_state ''c'' ''event c@ghost'' (Some ''ghost'') =
       (\<lparr>groups = groups (fst example_state), events = [(''c'', None)]\<rparr>, [''c''])
   \<and> store_event example_key_file example_state ''c'' ''event c@ghost'' None \<noteq>
       store_event example_key_file example_state ''c'' ''event c@ghost'' (Some ''ghost'')
   \<and> map_of (event_proplist example_key_file ''event c@ghost'' True) ''audio_tonegen_pattern'' =
       Some (NInt (- 1))
   \<and> map_of (event_proplist example_key_file ''event c@ghost'' False) ''audio_tonegen_pattern'' = None"
proof -
  have a: "parse_single_event example_key_file example_state (Some ''c'') =
     Some (store_event example_key_file example_state ''c'' ''event c@ghost'' (Some ''ghost''))"
    by (subst parse_single_event_derived [where grp = "''event c@ghost''" and parent = "''ghost''"])
       (simp_all add: example_state_def example_parent_c parse_single_event_no_group)
  have b: "store_event example_key_file example_state ''c'' ''event c@ghost'' (Some ''ghost'') =
       (\<lparr>groups = groups (fst example_state), events = [(''c'', None)]\<rparr>, [''c''])"
    by (simp add: store_event_def Let_def example_state_def g_hash_table_lookup_def
        n_proplist_copy_def n_proplist_merge_def)
  have c: "store_event example_key_file example_state ''c'' ''event c@ghost'' None \<noteq>
       store_event example_key_file example_state ''c'' ''event c@ghost'' (Some ''ghost'')"
    unfolding b by (simp add: store_event_def Let_def example_state_def)
  have d: "map_of (event_proplist example_key_file ''event c@ghost'' True) ''audio_tonegen_pattern'' =
       Some (NInt (- 1))"
    using event_proplist_lookup [OF tonegen_entry, of example_key_file "''event c@ghost''" True]
    by (simp add: entry_def source_value_def example_key_file_def schema_default_def)
  have e: "map_of (event_proplist example_key_file ''event c@ghost'' False) ''audio_tonegen_pattern'' = None"
    using event_proplist_lookup [OF tonegen_entry, of example_key_file "''event c@ghost''" False]
    by (simp add: entry_def source_value_def example_key_file_def schema_default_def)
  from a b c d e show ?thesis by (intro conjI)
qed

lemma parse_single_event_induct [consumes 1, case_names step]:
  assumes "parse_single_event k st name = Some st'"
    and "\<And>f k st name st'.
      (\<And>k st name st'. f k st name = Some st' \<Longrightarrow> P k st name st') \<Longrightarrow>
      (case name of
         None \<Rightarrow> Some st
       | Some nm \<Rightarrow>
           if event_is_done (snd st) name then Some st
           else
             (case map_of (groups (fst st)) nm of
                None \<Rightarrow> Some st
              | Some grp \<Rightarrow>
                  (case parse_group_parent (Some grp) of
                     None \<Rightarrow> Some (store_event k st nm grp None)
                   | Some parent \<Rightarrow>
                       Option.bind (f k st (Some parent))
                         (\<lambda>st'. Some (store_event k st' nm grp (Some parent)))))) = Some st'
      \<Longrightarrow> P k st name st'"
  shows "P k st name st'"
  using assms(2) assms(1) by (rule parse_single_event.raw_induct)

lemma parse_single_event_chain:
  assumes "parse_single_event k st name = Some st'"
  shows "groups (fst st') = groups (fst st)
    \<and> (case name of
          None \<Rightarrow> snd st' = snd st
        | Some nm \<Rightarrow> (\<exists>ys. resolve_chain (groups (fst st)) (snd st) nm ys \<and> snd st' = snd st @ ys))"
  using assms
proof (induction rule: parse_single_event_induct)
  case (step f k st name st')
  note 1 = step
  show ?case
  proof (cases name)
    case None
    with 1(2) show ?thesis by simp
  next
    case (Some nm)
    show ?thesis
    proof (cases "nm \<in> set (snd st)")
      case True
      with 1(2) Some show ?thesis
        by (auto simp: event_is_done_iff intro: resolve_chain.chain_done)
    next
      case notdone: False
      show ?thesis
      proof (cases "map_of (groups (fst st)) nm")
        case None
        with 1(2) Some notdone show ?thesis
          by (auto simp: event_is_done_iff intro: resolve_chain.chain_no_group)
      next
        case grp: (Some grp)
        show ?thesis
        proof (cases "parse_group_parent (Some grp)")
          case None
          with 1(2) Some notdone grp have "st' = store_event k st nm grp None"
            by (simp add: event_is_done_iff)
          with Some notdone grp None show ?thesis
            by (auto simp: store_event_fields intro: resolve_chain.chain_base)
        next
          case parent: (Some parent)
          with 1(2) Some notdone grp obtain stp where
            stp: "f k st (Some parent) = Some stp" and
            st': "st' = store_event k stp nm grp (Some parent)"
            by (auto simp: event_is_done_iff split: Option.bind_splits)
          from 1(1) [OF stp] obtain ys where
            g: "groups (fst stp) = groups (fst st)" and
            c: "resolve_chain (groups (fst st)) (snd st) parent ys" and
            d: "snd stp = snd st @ ys"
            by auto
          have "resolve_chain (groups (fst st)) (snd st) nm (ys @ [nm])"
            using notdone grp parent c by (rule resolve_chain.chain_derived)
          with Some st' g d show ?thesis
            by (auto simp: store_event_fields)
        qed
      qed
    qed
  qed
qed

lemma resolve_chain_sub:
  "resolve_chain grps dn nm ys \<Longrightarrow> x \<in> set ys \<Longrightarrow>
   \<exists>zs. resolve_chain grps dn x zs \<and> length zs \<le> length ys"
proof (induction rule: resolve_chain.induct)
  case (chain_base nm grp)
  then have "resolve_chain grps dn x [x]"
    by (auto intro: resolve_chain.chain_base)
  then show ?case by auto
next
  case (chain_derived nm grp parent ys)
  show ?case
  proof (cases "x = nm")
    case True
    have "resolve_chain grps dn nm (ys @ [nm])"
      using chain_derived(1-4) by (rule resolve_chain.chain_derived)
    with True show ?thesis by auto
  next
    case False
    with chain_derived obtain zs where "resolve_chain grps dn x zs" "length zs \<le> length ys"
      by auto
    then show ?thesis by (intro exI [of _ zs]) simp
  qed
qed simp_all

lemma resolve_chain_det:
  "resolve_chain grps dn nm ys \<Longrightarrow> resolve_chain grps dn nm zs \<Longrightarrow> ys = zs"
proof (induction arbitrary: zs rule: resolve_chain.induct)
  case (chain_done nm)
  from chain_done(2) chain_done(1) show ?case by cases auto
next
  case (chain_no_group nm)
  from chain_no_group(3) chain_no_group(1,2) show ?case by cases auto
next
  case (chain_base nm grp)
  from chain_base(4) chain_base(1-3) show ?case by cases auto
next
  case (chain_derived nm grp parent ys)
  from chain_derived(6) chain_derived(1-3) chain_derived(5) show ?case by cases auto
qed

lemma resolve_chain_distinct:
  "resolve_chain grps dn nm ys \<Longrightarrow> distinct ys \<and> set ys \<inter> set dn = {}"
proof (induction rule: resolve_chain.induct)
  case (chain_derived nm grp parent ys)
  have full: "resolve_chain grps dn nm (ys @ [nm])"
    using chain_derived(1-4) by (rule resolve_chain.chain_derived)
  have "nm \<notin> set ys"
  proof
    assume "nm \<in> set ys"
    from resolve_chain_sub [OF chain_derived(4) this] obtain zs where
      zs: "resolve_chain grps dn nm zs" and len: "length zs \<le> length ys" by auto
    from resolve_chain_det [OF full zs] have "ys @ [nm] = zs" .
    with len show False by auto
  qed
  with chain_derived show ?case by auto
qed simp_all

lemma resolve_chain_done_after:
  "resolve_chain grps dn nm ys \<Longrightarrow> map_of grps nm = Some grp \<Longrightarrow> nm \<in> set dn \<union> set ys"
  by (induction rule: resolve_chain.induct) auto

lemma parse_single_event_distinct:
  assumes "parse_single_event k st name = Some st'" and "distinct (snd st)"
  shows "distinct (snd st')"
proof (cases name)
  case None
  with parse_single_event_chain [OF assms(1)] assms(2) show ?thesis by simp
next
  case (Some nm)
  with parse_single_event_chain [OF assms(1)] obtain ys where
    "resolve_chain (groups (fst st)) (snd st) nm ys" "snd st' = snd st @ ys" by auto
  with resolve_chain_distinct [of "groups (fst st)" "snd st" nm ys] assms(2)
  show ?thesis by auto
qed

lemma parse_single_event_marks_done:
  assumes "parse_single_event k st (Some nm) = Some st'" and "map_of (groups (fst st)) nm = Some grp"
  shows "nm \<in> set (snd st')"
proof -
  from parse_single_event_chain [OF assms(1)] obtain ys where
    "resolve_chain (groups (fst st)) (snd st) nm ys" "snd st' = snd st @ ys" by auto
  with resolve_chain_done_after [OF _ assms(2)] show ?thesis by auto
qed

lemma parse_single_event_grows:
  assumes "parse_single_event k st name = Some st'"
  shows "set (snd st) \<subseteq> set (snd st')"
  using parse_single_event_chain [OF assms] by (cases name) auto

lemma parse_single_event_again:
  assumes "parse_single_event k st name = Some st'"
  shows "parse_single_event k st' name = Some st'"
proof (cases name)
  case None
  with assms show ?thesis by (simp add: parse_single_event_null)
next
  case (Some nm)
  show ?thesis
  proof (cases "map_of (groups (fst st)) nm")
    case None
    with assms Some have "st' = st" by (simp add: parse_single_event_no_group)
    with None Some show ?thesis by (simp add: parse_single_event_no_group)
  next
    case (Some grp)
    with assms \<open>name = Some nm\<close> have "nm \<in> set (snd st')"
      by (auto intro: parse_single_event_marks_done)
    with \<open>name = Some nm\<close> show ?thesis
      by (simp add: parse_single_event_done event_is_done_iff)
  qed
qed

lemma count_list_distinct: "distinct xs \<Longrightarrow> x \<in> set xs \<Longrightarrow> count_list xs x = 1"
  by (induction xs) auto

lemma store_event_other:
  "ky \<noteq> name \<Longrightarrow>
   map_of (events (fst (store_event k st name grp parent))) ky = map_of (events (fst st)) ky"
  by (simp add: store_event_def Let_def map_of_g_hash_table_insert)

lemma child_not_in_parent_chain:
  assumes nd: "\<not> event_is_done (snd st) (Some nm)"
    and grp: "map_of (groups (fst st)) nm = Some grp"
    and par: "parse_group_parent (Some grp) = Some q"
    and ret: "parse_single_event k st (Some q) = Some stq"
  shows "nm \<notin> set (snd stq)"
proof
  assume mem: "nm \<in> set (snd stq)"
  from parse_single_event_chain [OF ret] obtain ys where
    c: "resolve_chain (groups (fst st)) (snd st) q ys" and d: "snd stq = snd st @ ys" by auto
  from nd have nd': "nm \<notin> set (snd st)" by (simp add: event_is_done_iff)
  with mem d have "nm \<in> set ys" by simp
  from resolve_chain_sub [OF c this] obtain zs where
    zs: "resolve_chain (groups (fst st)) (snd st) nm zs" and len: "length zs \<le> length ys" by auto
  have "resolve_chain (groups (fst st)) (snd st) nm (ys @ [nm])"
    using nd' grp par c by (rule resolve_chain.chain_derived)
  from resolve_chain_det [OF this zs] len show False by auto
qed

lemma parent_is_another_event:
  assumes "\<not> event_is_done (snd st) (Some nm)"
    and "map_of (groups (fst st)) nm = Some grp"
    and "parse_group_parent (Some grp) = Some q"
    and "parse_single_event k st (Some q) = Some stq"
  shows "q \<noteq> nm"
proof
  assume "q = nm"
  with assms have "nm \<in> set (snd stq)" by (auto intro: parse_single_event_marks_done)
  with child_not_in_parent_chain [OF assms] show False ..
qed

lemma parse_single_event_cached:
  assumes ret: "parse_single_event k st (Some nm) = Some st'"
    and nd: "\<not> event_is_done (snd st) (Some nm)"
    and grp: "map_of (groups (fst st)) nm = Some grp"
  shows "map_of (events (fst st')) nm =
     Some (case parse_group_parent (Some grp) of
        None \<Rightarrow> Some (event_proplist k grp True)
      | Some q \<Rightarrow>
          n_proplist_merge (n_proplist_copy (g_hash_table_lookup (events (fst st')) q))
            (event_proplist k grp False))"
proof (cases "parse_group_parent (Some grp)")
  case None
  with ret nd grp have "st' = store_event k st nm grp None"
    by (simp add: parse_single_event_base)
  with None show ?thesis by (simp add: store_event_fields)
next
  case (Some q)
  with ret nd grp have "Option.bind (parse_single_event k st (Some q))
      (\<lambda>s. Some (store_event k s nm grp (Some q))) = Some st'"
    by (simp add: parse_single_event_derived)
  then obtain stq where stq: "parse_single_event k st (Some q) = Some stq"
    and st': "st' = store_event k stq nm grp (Some q)"
    by (auto split: Option.bind_splits)
  from parent_is_another_event [OF nd grp Some stq] have "q \<noteq> nm" .
  then have "g_hash_table_lookup (events (fst st')) q = g_hash_table_lookup (events (fst stq)) q"
    by (simp add: st' g_hash_table_lookup_def store_event_other)
  with Some st' show ?thesis by (simp add: store_event_fields)
qed

lemma shared_parent_once:
  assumes dist: "distinct (snd st)"
    and nd1: "\<not> event_is_done (snd st) (Some c1)"
    and nd2: "\<not> event_is_done (snd st) (Some c2)"
    and neq: "c1 \<noteq> c2"
    and g1: "map_of (groups (fst st)) c1 = Some g1" and p1: "parse_group_parent (Some g1) = Some p"
    and g2: "map_of (groups (fst st)) c2 = Some g2" and p2: "parse_group_parent (Some g2) = Some p"
    and gp: "map_of (groups (fst st)) p = Some gp"
    and a: "parse_single_event k st (Some c1) = Some sta"
    and b: "parse_single_event k sta (Some c2) = Some stb"
  shows "\<exists>stp. parse_single_event k st (Some p) = Some stp
     \<and> sta = store_event k stp c1 g1 (Some p)
     \<and> parse_single_event k sta (Some p) = Some sta
     \<and> stb = store_event k sta c2 g2 (Some p)
     \<and> snd stb = snd stp @ [c1, c2]
     \<and> count_list (snd stb) p = 1
     \<and> map_of (events (fst stb)) p = map_of (events (fst stp)) p
     \<and> map_of (events (fst stb)) c1 =
         Some (n_proplist_merge (n_proplist_copy (g_hash_table_lookup (events (fst stp)) p))
           (event_proplist k g1 False))
     \<and> map_of (events (fst stb)) c2 =
         Some (n_proplist_merge (n_proplist_copy (g_hash_table_lookup (events (fst stp)) p))
           (event_proplist k g2 False))"
proof -
  from a nd1 g1 p1 have "Option.bind (parse_single_event k st (Some p))
      (\<lambda>s. Some (store_event k s c1 g1 (Some p))) = Some sta"
    by (simp add: parse_single_event_derived)
  then obtain stp where stp: "parse_single_event k st (Some p) = Some stp"
    and sta: "sta = store_event k stp c1 g1 (Some p)"
    by (auto split: Option.bind_splits)
  have pin: "p \<in> set (snd stp)" using parse_single_event_marks_done [OF stp gp] .
  have c1out: "c1 \<notin> set (snd stp)" using child_not_in_parent_chain [OF nd1 g1 p1 stp] .
  have c2out: "c2 \<notin> set (snd stp)" using child_not_in_parent_chain [OF nd2 g2 p2 stp] .
  from pin c1out c2out have pc: "p \<noteq> c1" "p \<noteq> c2" by auto
  have dsta: "snd sta = snd stp @ [c1]" by (simp add: sta store_event_fields)
  have gsta: "groups (fst sta) = groups (fst st)"
    using parse_single_event_chain [OF a] by simp
  have again: "parse_single_event k sta (Some p) = Some sta"
    using pin dsta by (simp add: parse_single_event_done event_is_done_iff)
  have nd2': "\<not> event_is_done (snd sta) (Some c2)"
    using c2out neq dsta by (simp add: event_is_done_iff)
  have stb: "stb = store_event k sta c2 g2 (Some p)"
    using b nd2' g2 p2 again by (simp add: parse_single_event_derived gsta)
  have dstb: "snd stb = snd stp @ [c1, c2]" by (simp add: stb dsta store_event_fields)
  have "distinct (snd stp)" using parse_single_event_distinct [OF stp dist] .
  with c1out c2out neq dstb have "distinct (snd stb)" by simp
  moreover from pin dstb have "p \<in> set (snd stb)" by simp
  ultimately have cnt: "count_list (snd stb) p = 1" by (simp add: count_list_distinct)
  have ep: "map_of (events (fst stb)) p = map_of (events (fst stp)) p"
    using pc by (simp add: stb sta store_event_other)
  have lp: "g_hash_table_lookup (events (fst sta)) p = g_hash_table_lookup (events (fst stp)) p"
    using pc by (simp add: sta g_hash_table_lookup_def store_event_other)
  have e1: "map_of (events (fst stb)) c1 =
      Some (n_proplist_merge (n_proplist_copy (g_hash_table_lookup (events (fst stp)) p))
        (event_proplist k g1 False))"
    using neq by (simp add: stb store_event_other) (simp add: sta store_event_fields)
  have e2: "map_of (events (fst stb)) c2 =
      Some (n_proplist_merge (n_proplist_copy (g_hash_table_lookup (events (fst stp)) p))
        (event_proplist k g2 False))"
    by (simp add: stb store_event_fields lp)
  from stp sta again stb dstb cnt ep e1 e2 show ?thesis by blast
qed

lemma shared_parent_counted:
  assumes dist: "distinct (snd st)"
    and nd: "\<not> event_is_done (snd st) (Some c1)"
    and g1: "map_of (groups (fst st)) c1 = Some g1" and p1: "parse_group_parent (Some g1) = Some p"
    and gp: "map_of (groups (fst st)) p = Some gp"
    and a: "parse_single_event k st (Some c1) = Some sta"
    and b: "parse_single_event k sta (Some c2) = Some stb"
  shows "count_list (snd stb) p = 1"
proof -
  from a nd g1 p1 have "Option.bind (parse_single_event k st (Some p))
      (\<lambda>s. Some (store_event k s c1 g1 (Some p))) = Some sta"
    by (simp add: parse_single_event_derived)
  then obtain stp where stp: "parse_single_event k st (Some p) = Some stp"
    and sta: "sta = store_event k stp c1 g1 (Some p)"
    by (auto split: Option.bind_splits)
  have "p \<in> set (snd stp)" using parse_single_event_marks_done [OF stp gp] .
  with sta have "p \<in> set (snd sta)" by (simp add: store_event_fields)
  with parse_single_event_grows [OF b] have mem: "p \<in> set (snd stb)" by auto
  have "distinct (snd sta)" using parse_single_event_distinct [OF a dist] .
  then have "distinct (snd stb)" by (rule parse_single_event_distinct [OF b])
  with mem show ?thesis by (rule count_list_distinct [rotated])
qed

text \<open>
  C2: resolving a name a second time is a no-op that returns the cached result: if a call
  returns a state, the same call on that state returns it unchanged (events table and
  done list included), and for a name with a group that was not done before, that state
  holds its property set in the events table: the base set of its group, or its own pass
  set merged onto the set the table holds for its parent. A shared parent is computed
  once: if the done list has no name twice and two distinct events, neither done yet,
  with the same parent, which has a group, are resolved one after the other, then the
  first call resolves the parent and stores the first child; for the second child the
  call on the parent changes nothing, so the second call only stores the second child;
  the done list is that of the parent's resolution followed by the two children, with
  the parent's name in it exactly once; the parent's set in the events table is the one
  its resolution left; and both children's sets are merged onto that one set. (The
  parent's name is in the done list exactly once also when the second child was done
  before.)
\<close>

theorem resolution_is_memoized:
  "(parse_single_event k st name = Some st' \<longrightarrow> parse_single_event k st' name = Some st')
   \<and> (parse_single_event k st (Some nm) = Some st' \<and> \<not> event_is_done (snd st) (Some nm)
        \<and> map_of (groups (fst st)) nm = Some grp \<longrightarrow>
        map_of (events (fst st')) nm =
          Some (case parse_group_parent (Some grp) of
             None \<Rightarrow> Some (event_proplist k grp True)
           | Some q \<Rightarrow>
               n_proplist_merge (n_proplist_copy (g_hash_table_lookup (events (fst st')) q))
                 (event_proplist k grp False)))
   \<and> (distinct (snd st) \<and> \<not> event_is_done (snd st) (Some c1)
        \<and> \<not> event_is_done (snd st) (Some c2) \<and> c1 \<noteq> c2
        \<and> map_of (groups (fst st)) c1 = Some g1 \<and> parse_group_parent (Some g1) = Some p
        \<and> map_of (groups (fst st)) c2 = Some g2 \<and> parse_group_parent (Some g2) = Some p
        \<and> map_of (groups (fst st)) p = Some gp
        \<and> parse_single_event k st (Some c1) = Some sta
        \<and> parse_single_event k sta (Some c2) = Some stb
      \<longrightarrow>
        (\<exists>stp. parse_single_event k st (Some p) = Some stp
          \<and> sta = store_event k stp c1 g1 (Some p)
          \<and> parse_single_event k sta (Some p) = Some sta
          \<and> stb = store_event k sta c2 g2 (Some p)
          \<and> snd stb = snd stp @ [c1, c2]
          \<and> count_list (snd stb) p = 1
          \<and> map_of (events (fst stb)) p = map_of (events (fst stp)) p
          \<and> map_of (events (fst stb)) c1 =
              Some (n_proplist_merge (n_proplist_copy (g_hash_table_lookup (events (fst stp)) p))
                (event_proplist k g1 False))
          \<and> map_of (events (fst stb)) c2 =
              Some (n_proplist_merge (n_proplist_copy (g_hash_table_lookup (events (fst stp)) p))
                (event_proplist k g2 False))))
   \<and> (distinct (snd st) \<and> \<not> event_is_done (snd st) (Some c1) \<and> c1 \<noteq> c2
        \<and> map_of (groups (fst st)) c1 = Some g1 \<and> parse_group_parent (Some g1) = Some p
        \<and> map_of (groups (fst st)) c2 = Some g2 \<and> parse_group_parent (Some g2) = Some p
        \<and> map_of (groups (fst st)) p = Some gp
        \<and> parse_single_event k st (Some c1) = Some sta
        \<and> parse_single_event k sta (Some c2) = Some stb
      \<longrightarrow> count_list (snd stb) p = 1)"
proof (intro conjI impI)
  assume "parse_single_event k st name = Some st'"
  then show "parse_single_event k st' name = Some st'" by (rule parse_single_event_again)
next
  assume "parse_single_event k st (Some nm) = Some st' \<and> \<not> event_is_done (snd st) (Some nm)
        \<and> map_of (groups (fst st)) nm = Some grp"
  then have "parse_single_event k st (Some nm) = Some st'"
    "\<not> event_is_done (snd st) (Some nm)" "map_of (groups (fst st)) nm = Some grp"
    by simp_all
  then show "map_of (events (fst st')) nm =
          Some (case parse_group_parent (Some grp) of
             None \<Rightarrow> Some (event_proplist k grp True)
           | Some q \<Rightarrow>
               n_proplist_merge (n_proplist_copy (g_hash_table_lookup (events (fst st')) q))
                 (event_proplist k grp False))"
    by (rule parse_single_event_cached)
next
  assume h: "distinct (snd st) \<and> \<not> event_is_done (snd st) (Some c1)
        \<and> \<not> event_is_done (snd st) (Some c2) \<and> c1 \<noteq> c2
        \<and> map_of (groups (fst st)) c1 = Some g1 \<and> parse_group_parent (Some g1) = Some p
        \<and> map_of (groups (fst st)) c2 = Some g2 \<and> parse_group_parent (Some g2) = Some p
        \<and> map_of (groups (fst st)) p = Some gp
        \<and> parse_single_event k st (Some c1) = Some sta
        \<and> parse_single_event k sta (Some c2) = Some stb"
  show "\<exists>stp. parse_single_event k st (Some p) = Some stp
          \<and> sta = store_event k stp c1 g1 (Some p)
          \<and> parse_single_event k sta (Some p) = Some sta
          \<and> stb = store_event k sta c2 g2 (Some p)
          \<and> snd stb = snd stp @ [c1, c2]
          \<and> count_list (snd stb) p = 1
          \<and> map_of (events (fst stb)) p = map_of (events (fst stp)) p
          \<and> map_of (events (fst stb)) c1 =
              Some (n_proplist_merge (n_proplist_copy (g_hash_table_lookup (events (fst stp)) p))
                (event_proplist k g1 False))
          \<and> map_of (events (fst stb)) c2 =
              Some (n_proplist_merge (n_proplist_copy (g_hash_table_lookup (events (fst stp)) p))
                (event_proplist k g2 False))"
    by (rule shared_parent_once [where st = st and ?g1.0 = g1 and ?g2.0 = g2 and gp = gp])
       (use h in simp_all)
next
  assume h: "distinct (snd st) \<and> \<not> event_is_done (snd st) (Some c1) \<and> c1 \<noteq> c2
        \<and> map_of (groups (fst st)) c1 = Some g1 \<and> parse_group_parent (Some g1) = Some p
        \<and> map_of (groups (fst st)) c2 = Some g2 \<and> parse_group_parent (Some g2) = Some p
        \<and> map_of (groups (fst st)) p = Some gp
        \<and> parse_single_event k st (Some c1) = Some sta
        \<and> parse_single_event k sta (Some c2) = Some stb"
  show "count_list (snd stb) p = 1"
    by (rule shared_parent_counted [where st = st and ?c1.0 = c1 and ?g1.0 = g1 and gp = gp
          and sta = sta and ?c2.0 = c2 and k = k])
       (use h in simp_all)
qed

lemma example_after_p_fields:
  "snd example_after_p = [''p'']" "groups (fst example_after_p) = groups (fst example_state)"
  by (simp_all add: example_after_p_def store_event_fields example_state_def)

lemma example_after_a_fields:
  "snd example_after_a = [''p'', ''a'']" "groups (fst example_after_a) = groups (fst example_state)"
  by (simp_all add: example_after_a_def store_event_fields example_after_p_fields)

lemma example_resolve_a:
  "parse_single_event example_key_file example_state (Some ''a'') = Some example_after_a"
  by (subst parse_single_event_derived [where grp = "''event a@p''" and parent = "''p''"])
     (simp_all add: example_state_def example_parent_a
        example_resolve_p [unfolded example_state_def] example_after_a_def example_after_p_def)

lemma example_resolve_b:
  "parse_single_event example_key_file example_after_a (Some ''b'') = Some example_after_b"
  by (subst parse_single_event_derived [where grp = "''event b@p''" and parent = "''p''"])
     (simp_all add: example_after_a_fields example_state_def example_parent_b
        parse_single_event_done example_after_b_def)

lemma example_proplist_a:
  "event_proplist example_key_file ''event a@p'' False = [(''max_timeout'', NInt 5)]"
  by (simp add: event_proplist_def event_entries_def entry_def add_entry_def
      add_property_string_def add_property_int_def add_property_bool_def
      n_proplist_set_string_def n_proplist_set_int_def n_proplist_set_bool_def
      n_proplist_new_def example_key_file_def)

lemma example_proplist_b:
  "event_proplist example_key_file ''event b@p'' False = []"
  by (simp add: event_proplist_def event_entries_def entry_def add_entry_def
      add_property_string_def add_property_int_def add_property_bool_def
      n_proplist_set_string_def n_proplist_set_int_def n_proplist_set_bool_def
      n_proplist_new_def example_key_file_def)

lemma example_after_b_events:
  "events (fst example_after_b) =
     [(''p'', Some (event_proplist example_key_file ''event p'' True)),
      (''a'', Some ((''max_timeout'', NInt 5) # tl (event_proplist example_key_file ''event p'' True))),
      (''b'', Some (event_proplist example_key_file ''event p'' True))]"
  by (simp add: example_after_b_def example_after_a_def example_after_p_def store_event_def
      Let_def example_state_def g_hash_table_lookup_def n_proplist_copy_def n_proplist_merge_def
      example_proplist_a example_proplist_b)
     (simp add: example_proplist_p)

theorem resolution_is_memoized_witness:
  "parse_single_event example_key_file example_state (Some ''a'') = Some example_after_a
   \<and> parse_single_event example_key_file example_after_a (Some ''a'') = Some example_after_a
   \<and> distinct (snd example_state) \<and> \<not> event_is_done (snd example_state) (Some ''a'')
   \<and> \<not> event_is_done (snd example_state) (Some ''b'')
   \<and> ''a'' \<noteq> ''b''
   \<and> map_of (groups (fst example_state)) ''a'' = Some ''event a@p''
   \<and> parse_group_parent (Some ''event a@p'') = Some ''p''
   \<and> map_of (groups (fst example_state)) ''b'' = Some ''event b@p''
   \<and> parse_group_parent (Some ''event b@p'') = Some ''p''
   \<and> map_of (groups (fst example_state)) ''p'' = Some ''event p''
   \<and> parse_single_event example_key_file example_after_a (Some ''b'') = Some example_after_b
   \<and> snd example_after_b = [''p'', ''a'', ''b'']
   \<and> count_list (snd example_after_b) ''p'' = 1
   \<and> map_of (events (fst example_after_a)) ''a'' =
       Some (n_proplist_merge
         (n_proplist_copy (g_hash_table_lookup (events (fst example_after_a)) ''p''))
         (event_proplist example_key_file ''event a@p'' False))
   \<and> n_proplist_get_int (g_hash_table_lookup (events (fst example_after_b)) ''p'') ''max_timeout'' = 7
   \<and> n_proplist_get_int (g_hash_table_lookup (events (fst example_after_b)) ''a'') ''max_timeout'' = 5
   \<and> n_proplist_get_int (g_hash_table_lookup (events (fst example_after_b)) ''b'') ''max_timeout'' = 7
   \<and> n_proplist_get_int (g_hash_table_lookup (events (fst example_after_b)) ''b'')
       ''audio_tonegen_pattern'' = - 1"
proof -
  have h0: "parse_single_event example_key_file example_state (Some ''a'') = Some example_after_a
     \<and> \<not> event_is_done (snd example_state) (Some ''a'')
     \<and> map_of (groups (fst example_state)) ''a'' = Some ''event a@p''"
    by (simp add: example_resolve_a) (simp add: example_state_def)
  have h: "distinct (snd example_state) \<and> \<not> event_is_done (snd example_state) (Some ''a'')
     \<and> \<not> event_is_done (snd example_state) (Some ''b'')
     \<and> ''a'' \<noteq> ''b''
     \<and> map_of (groups (fst example_state)) ''a'' = Some ''event a@p''
     \<and> parse_group_parent (Some ''event a@p'') = Some ''p''
     \<and> map_of (groups (fst example_state)) ''b'' = Some ''event b@p''
     \<and> parse_group_parent (Some ''event b@p'') = Some ''p''
     \<and> map_of (groups (fst example_state)) ''p'' = Some ''event p''
     \<and> parse_single_event example_key_file example_state (Some ''a'') = Some example_after_a
     \<and> parse_single_event example_key_file example_after_a (Some ''b'') = Some example_after_b"
    by (simp add: example_resolve_a example_resolve_b example_parent_a example_parent_b)
       (simp add: example_state_def)
  note t = resolution_is_memoized [where k = example_key_file and st = example_state
      and name = "Some ''a''" and st' = example_after_a and nm = "''a''"
      and grp = "''event a@p''" and ?c1.0 = "''a''" and ?c2.0 = "''b''"
      and ?g1.0 = "''event a@p''" and ?g2.0 = "''event b@p''" and p = "''p''" and gp = "''event p''"
      and sta = example_after_a and stb = example_after_b]
  note t1 = t [THEN conjunct1, rule_format, OF example_resolve_a]
  note t2 = t [THEN conjunct2, THEN conjunct1, rule_format, OF h0]
  have h': "distinct (snd example_state) \<and> \<not> event_is_done (snd example_state) (Some ''a'')
     \<and> ''a'' \<noteq> ''b''
     \<and> map_of (groups (fst example_state)) ''a'' = Some ''event a@p''
     \<and> parse_group_parent (Some ''event a@p'') = Some ''p''
     \<and> map_of (groups (fst example_state)) ''b'' = Some ''event b@p''
     \<and> parse_group_parent (Some ''event b@p'') = Some ''p''
     \<and> map_of (groups (fst example_state)) ''p'' = Some ''event p''
     \<and> parse_single_event example_key_file example_state (Some ''a'') = Some example_after_a
     \<and> parse_single_event example_key_file example_after_a (Some ''b'') = Some example_after_b"
    using h by simp
  note t4 = t [THEN conjunct2, THEN conjunct2, THEN conjunct2, rule_format, OF h']
  from t [THEN conjunct2, THEN conjunct2, THEN conjunct1, rule_format, OF h] obtain stp where
    stp: "parse_single_event example_key_file example_state (Some ''p'') = Some stp"
    and d: "snd example_after_b = snd stp @ [''a'', ''b'']"
    and c: "count_list (snd example_after_b) ''p'' = 1"
    by blast
  from stp have "stp = example_after_p" by (simp add: example_resolve_p example_after_p_def)
  with d have d': "snd example_after_b = [''p'', ''a'', ''b'']"
    by (simp add: example_after_p_fields)
  have v: "n_proplist_get_int (g_hash_table_lookup (events (fst example_after_b)) ''p'') ''max_timeout'' = 7"
    "n_proplist_get_int (g_hash_table_lookup (events (fst example_after_b)) ''a'') ''max_timeout'' = 5"
    "n_proplist_get_int (g_hash_table_lookup (events (fst example_after_b)) ''b'') ''max_timeout'' = 7"
    "n_proplist_get_int (g_hash_table_lookup (events (fst example_after_b)) ''b'')
       ''audio_tonegen_pattern'' = - 1"
    by (simp_all add: example_after_b_events g_hash_table_lookup_def n_proplist_get_int_def
        example_proplist_p)
  from t1 t2 [unfolded example_parent_a, simplified] t4 h d' c v show ?thesis by simp
qed

text \<open>
  The resolver has no guard against a cycle: for two events that name each other as
  parent it never returns.
\<close>

lemma cyclic_chain_impossible:
  "resolve_chain (groups (fst cyclic_state)) (snd cyclic_state) nm ys \<Longrightarrow>
   nm = ''x'' \<or> nm = ''y'' \<Longrightarrow> False"
proof (induction rule: resolve_chain.induct)
  case (chain_done nm)
  then show ?case by (simp add: cyclic_state_def)
next
  case (chain_no_group nm)
  then show ?case by (auto simp: cyclic_state_def)
next
  case (chain_base nm grp)
  then show ?case
    by (auto simp: cyclic_state_def parse_group_parent_eq strip_group_type_def)
next
  case (chain_derived nm grp parent ys)
  then show ?case
    by (auto simp: cyclic_state_def parse_group_parent_eq strip_group_type_def)
qed

lemma cyclic_parents_never_return:
  "parse_single_event k cyclic_state (Some ''x'') = None"
proof (cases "parse_single_event k cyclic_state (Some ''x'')")
  case None
  then show ?thesis .
next
  case (Some st')
  from parse_single_event_chain [OF Some] obtain ys where
    "resolve_chain (groups (fst cyclic_state)) (snd cyclic_state) ''x'' ys" by auto
  then have False by (rule cyclic_chain_impossible) simp
  then show ?thesis ..
qed

subsection \<open>The driver\<close>

lemma parse_general_fault:
  "g_key_file_get_string k GROUP_GENERAL ''system_volume'' = Failed err \<Longrightarrow>
   parse_general ctx k = Inl NULL_POINTER_DEREFERENCE"
  by (simp add: parse_general_def Let_def returned_string_def)

lemma parse_general_returns:
  "g_key_file_get_string k GROUP_GENERAL ''system_volume'' = Found v \<Longrightarrow>
   \<exists>ctx'. parse_general ctx k = Inr ctx'"
  by (simp add: parse_general_def Let_def returned_string_def split: list.splits)

lemma load_settings_fault_iff:
  assumes "g_key_file_new w" and "load_first w conf_files = Some k"
  shows "load_settings w ctx = Some (Inl f) \<longleftrightarrow>
     (\<exists>err. g_key_file_get_string k GROUP_GENERAL ''system_volume'' = Failed err)"
proof (cases "g_key_file_get_string k GROUP_GENERAL ''system_volume''")
  case (Found v)
  with parse_general_returns [OF Found, of ctx] assms show ?thesis
    by (auto simp: load_settings_def split: option.splits)
next
  case (Failed err)
  with parse_general_fault [OF Failed, of ctx] assms show ?thesis
    by (cases f) (simp add: load_settings_def)
qed

lemma load_settings_false_iff:
  assumes "g_key_file_new w"
  shows "load_settings w ctx = Some (Inr (False, c)) \<longleftrightarrow> load_first w conf_files = None \<and> c = ctx"
  using assms by (auto simp: load_settings_def split: option.splits sum.splits)

lemma load_settings_returns_true:
  assumes "load_settings w ctx = Some (Inr (b, c))" and "load_first w conf_files = Some k"
    and "g_key_file_new w"
  shows "b"
  using assms by (auto simp: load_settings_def split: option.splits sum.splits)

lemma load_first_example: "load_first (example_world k) conf_files = Some k"
  by (simp add: conf_files_def example_world_def)

text \<open>
  C10: when the key file gives no string for \<open>system_volume\<close> in the general group,
  \<open>_parse_general\<close> reads through a null pointer; when it gives one, \<open>_parse_general\<close>
  returns. So once a configuration file has loaded, \<open>load_settings\<close> faults in
  \<open>_parse_general\<close> exactly when \<open>system_volume\<close> is missing.
\<close>

theorem system_volume_required:
  "(g_key_file_get_string k GROUP_GENERAL ''system_volume'' = Failed err \<longrightarrow>
      parse_general ctx k = Inl NULL_POINTER_DEREFERENCE)
   \<and> (g_key_file_get_string k GROUP_GENERAL ''system_volume'' = Found v \<longrightarrow>
      (\<exists>ctx'. parse_general ctx k = Inr ctx'))
   \<and> (g_key_file_new w \<and> load_first w conf_files = Some k \<longrightarrow>
      (load_settings w ctx = Some (Inl NULL_POINTER_DEREFERENCE) \<longleftrightarrow>
       (\<exists>e. g_key_file_get_string k GROUP_GENERAL ''system_volume'' = Failed e)))"
  using parse_general_fault [of k err ctx] parse_general_returns [of k v ctx]
    load_settings_fault_iff [of w k ctx NULL_POINTER_DEREFERENCE]
  by blast

theorem system_volume_required_witness:
  "g_key_file_get_string example_key_file_no_volume GROUP_GENERAL ''system_volume'' =
     Failed G_KEY_FILE_ERROR_KEY_NOT_FOUND
   \<and> parse_general fresh_context example_key_file_no_volume = Inl NULL_POINTER_DEREFERENCE
   \<and> g_key_file_get_string example_key_file GROUP_GENERAL ''system_volume'' = Found ''1;2;3''
   \<and> (\<exists>ctx'. parse_general fresh_context example_key_file = Inr ctx')
   \<and> g_key_file_new (example_world example_key_file_no_volume)
   \<and> load_first (example_world example_key_file_no_volume) conf_files = Some example_key_file_no_volume
   \<and> load_settings (example_world example_key_file_no_volume) fresh_context =
       Some (Inl NULL_POINTER_DEREFERENCE)"
proof -
  have h1: "g_key_file_get_string example_key_file_no_volume GROUP_GENERAL ''system_volume'' =
     Failed G_KEY_FILE_ERROR_KEY_NOT_FOUND"
    by (simp add: example_key_file_no_volume_def)
  have h2: "g_key_file_get_string example_key_file GROUP_GENERAL ''system_volume'' = Found ''1;2;3''"
    by (simp add: example_key_file_def GROUP_GENERAL_def)
  have h3: "g_key_file_new (example_world example_key_file_no_volume)
     \<and> load_first (example_world example_key_file_no_volume) conf_files = Some example_key_file_no_volume"
    by (simp add: load_first_example) (simp add: example_world_def)
  note t = system_volume_required [where k = example_key_file_no_volume
      and err = G_KEY_FILE_ERROR_KEY_NOT_FOUND and ctx = fresh_context
      and w = "example_world example_key_file_no_volume"]
  note u = system_volume_required [where k = example_key_file and v = "''1;2;3''"
      and ctx = fresh_context]
  from t [THEN conjunct1, rule_format, OF h1]
    u [THEN conjunct2, THEN conjunct1, rule_format, OF h2]
    t [THEN conjunct2, THEN conjunct2, rule_format, OF h3] h1 h2 h3
  show ?thesis by blast
qed

text \<open>
  C9 at a configuration that loads but has no \<open>system_volume\<close> key:
  \<open>load_settings\<close> does not return success, it faults.
\<close>

theorem load_settings_faults_without_system_volume:
  "load_settings (example_world example_key_file_no_volume) fresh_context =
     Some (Inl NULL_POINTER_DEREFERENCE)"
  by (simp add: load_settings_def load_first_example parse_general_fault [where err = G_KEY_FILE_ERROR_KEY_NOT_FOUND]
      example_key_file_no_volume_def)
     (simp add: example_world_def)

end
